theory Spec2Isabelle
  imports Main "HOL-Library.List_Lexorder" "HOL-Library.Char_ord" "HOL-Library.Multiset"
    "HOL-Library.Sublist"
begin

section \<open>Setting values and Python strings\<close>

text \<open>
  Setting values are the JSON values that the parsers produce and that the store writes
  (\<open>Any\<close> in \<open>models.py\<close>). \<open>JNull\<close> is Python's \<open>None\<close>. A JSON object is
  a Python \<open>dict\<close>: an association list in insertion order, with distinct keys.
  Floating-point numbers are not part of this model; strings are ASCII.
\<close>

datatype jvalue =
    JNull
  | JBool bool
  | JInt int
  | JStr string
  | JList "jvalue list"
  | JDict "(string \<times> jvalue) list"

type_synonym 'v pydict = "(string \<times> 'v) list"

text \<open>\<open>d[k] = v\<close>: an existing key keeps its position, a new key goes to the end.\<close>

fun dict_set :: "'k \<Rightarrow> 'v \<Rightarrow> ('k \<times> 'v) list \<Rightarrow> ('k \<times> 'v) list" where
  "dict_set k v [] = [(k, v)]"
| "dict_set k v (p # ps) = (if fst p = k then (k, v) # ps else p # dict_set k v ps)"

text \<open>\<open>del d[k]\<close> and \<open>d.update(e)\<close>.\<close>

definition dict_del :: "'k \<Rightarrow> ('k \<times> 'v) list \<Rightarrow> ('k \<times> 'v) list" where
  "dict_del k d = filter (\<lambda>p. fst p \<noteq> k) d"

definition dict_update :: "('k \<times> 'v) list \<Rightarrow> ('k \<times> 'v) list \<Rightarrow> ('k \<times> 'v) list" where
  "dict_update d e = foldl (\<lambda>acc p. dict_set (fst p) (snd p) acc) d e"

text \<open>The ASCII characters for which \<open>str.isspace\<close> holds; \<open>str.strip()\<close> removes them.\<close>

definition is_space :: "char \<Rightarrow> bool" where
  "is_space c = (c \<in> set [CHR 0x09, CHR 0x0A, CHR 0x0B, CHR 0x0C, CHR 0x0D,
                            CHR 0x1C, CHR 0x1D, CHR 0x1E, CHR 0x1F, CHR 0x20])"

definition strip_chars :: "(char \<Rightarrow> bool) \<Rightarrow> string \<Rightarrow> string" where
  "strip_chars P s = rev (dropWhile P (rev (dropWhile P s)))"

definition strip :: "string \<Rightarrow> string" where
  "strip s = strip_chars is_space s"

definition is_digit :: "char \<Rightarrow> bool" where
  "is_digit c = (c \<in> set ''0123456789'')"

definition digit_val :: "char \<Rightarrow> int" where
  "digit_val c = int (of_char c) - 48"

text \<open>\<open>re.split\<close> on a one-character class: every separator cuts, empty pieces stay.\<close>

fun split_on :: "(char \<Rightarrow> bool) \<Rightarrow> string \<Rightarrow> string list" where
  "split_on P [] = [[]]"
| "split_on P (c # cs) =
     (if P c then [] # split_on P cs
      else (case split_on P cs of [] \<Rightarrow> [[c]] | w # ws \<Rightarrow> (c # w) # ws))"

text \<open>
  \<open>int(s)\<close> for a string: surrounding whitespace is dropped, one sign is allowed, then
  decimal digits, where single underscores may stand between digits. \<open>None\<close> is the
  \<open>ValueError\<close>.
\<close>

definition digits_value :: "string \<Rightarrow> int" where
  "digits_value ds = foldl (\<lambda>a c. 10 * a + digit_val c) 0 ds"

definition py_int_unsigned :: "string \<Rightarrow> int option" where
  "py_int_unsigned s =
     (let groups = split_on (\<lambda>c. c = CHR ''_'') s
      in if list_all (\<lambda>g. g \<noteq> [] \<and> list_all is_digit g) groups
         then Some (digits_value (concat groups)) else None)"

definition py_int :: "string \<Rightarrow> int option" where
  "py_int s =
     (case strip s of
        [] \<Rightarrow> None
      | c # cs \<Rightarrow>
          if c = CHR ''-'' then map_option uminus (py_int_unsigned cs)
          else if c = CHR ''+'' then py_int_unsigned cs
          else py_int_unsigned (c # cs))"

section \<open>Version ordering (\<open>models.py\<close>, \<open>versions.py\<close>)\<close>

text \<open>
  \<open>_version_key\<close>: split on \<open>.\<close>, \<open>-\<close> and \<open>_\<close>, convert each part with
  \<open>int\<close>, and take 0 where \<open>int\<close> raises. The result is a Python tuple of ints;
  tuples compare lexicographically, a proper prefix being smaller, which is the order of
  \<open>int list\<close> here.
\<close>

definition version_key :: "string \<Rightarrow> int list" where
  "version_key v =
     map (\<lambda>part. case py_int part of Some n \<Rightarrow> n | None \<Rightarrow> 0)
       (split_on (\<lambda>c. c = CHR ''.'' \<or> c = CHR ''-'' \<or> c = CHR ''_'') v)"

text \<open>\<open>sort_versions\<close>: \<open>sorted(versions, key=version_key)\<close>, a stable sort by key.\<close>

definition sort_versions :: "string list \<Rightarrow> string list" where
  "sort_versions versions = sort_key version_key versions"

text \<open>\<open>normalize_version\<close> strips a leading \<open>version_\<close> or \<open>v\<close>, in any case.\<close>

definition lower_char :: "char \<Rightarrow> char" where
  "lower_char c =
     (let n = (of_char c :: nat) in if 65 \<le> n \<and> n \<le> 90 then char_of (n + 32) else c)"

definition lower :: "string \<Rightarrow> string" where
  "lower s = map lower_char s"

definition normalize_version :: "string \<Rightarrow> string" where
  "normalize_version raw =
     (let s = strip raw
      in if prefix ''version_'' (lower s) then drop 8 s
         else if prefix ''v'' (lower s) then drop 1 s
         else s)"

section \<open>Profiles (\<open>models.py\<close>)\<close>

datatype SlicerType = BAMBUSTUDIO | ORCASLICER | PRUSASLICER | CURA | ELEGOOSLICER | SUPERSLICER

fun slicer_value :: "SlicerType \<Rightarrow> string" where
  "slicer_value BAMBUSTUDIO = ''bambustudio''"
| "slicer_value ORCASLICER = ''orcaslicer''"
| "slicer_value PRUSASLICER = ''prusaslicer''"
| "slicer_value CURA = ''cura''"
| "slicer_value ELEGOOSLICER = ''elegooslicer''"
| "slicer_value SUPERSLICER = ''superslicer''"

datatype ProfileType = FILAMENT | MACHINE | MACHINE_MODEL | PRINT

fun profile_type_value :: "ProfileType \<Rightarrow> string" where
  "profile_type_value FILAMENT = ''filament''"
| "profile_type_value MACHINE = ''machine''"
| "profile_type_value MACHINE_MODEL = ''machine_model''"
| "profile_type_value PRINT = ''print''"

text \<open>
  \<open>ParsedProfile\<close>; its fields carry the prefix \<open>p_\<close> to keep them apart from
  those of \<open>StoredProfile\<close>. \<open>source_path\<close>, \<open>filament_type\<close> and
  \<open>filament_settings_id\<close> are not read by the store.
\<close>

record ParsedProfile =
  p_slicer :: SlicerType
  p_profile_type :: ProfileType
  p_name :: string
  p_vendor :: string
  p_settings :: "jvalue pydict"
  p_filament_id :: "string option"
  p_setting_id :: "string option"

text \<open>\<open>StoredProfile\<close>: \<open>settings\<close> maps a key to its history, version to value.\<close>

record StoredProfile =
  slicer :: string
  profile_type :: string
  name :: string
  vendor :: string
  first_seen :: string
  last_seen :: string
  filament_id :: "string option"
  setting_id :: "string option"
  renamed_from :: "string option"
  settings :: "(jvalue pydict) pydict"

text \<open>\<open>get_latest\<close>: the last value of the history, \<open>None\<close> without history.\<close>

definition get_latest :: "StoredProfile \<Rightarrow> string \<Rightarrow> jvalue" where
  "get_latest sp key =
     (case map_of (settings sp) key of
        None \<Rightarrow> JNull
      | Some versions \<Rightarrow> if versions = [] then JNull else snd (last versions))"

text \<open>
  The loop of \<open>get_at_version\<close> and of \<open>evaluate\<close>: walk the history in its stored
  order and keep the value of every entry whose version is at most the target. The state
  is \<open>(found, value)\<close>.
\<close>

definition walk_versions :: "int list \<Rightarrow> jvalue pydict \<Rightarrow> bool \<times> jvalue" where
  "walk_versions target versions =
     foldl (\<lambda>(found, value) (ver, val).
              if version_key ver \<le> target then (True, val) else (found, value))
           (False, JNull) versions"

definition get_at_version :: "StoredProfile \<Rightarrow> string \<Rightarrow> string \<Rightarrow> jvalue" where
  "get_at_version sp key version =
     (case map_of (settings sp) key of
        None \<Rightarrow> JNull
      | Some versions \<Rightarrow>
          if versions = [] then JNull
          else snd (walk_versions (version_key version) versions))"

definition evaluate :: "StoredProfile \<Rightarrow> string \<Rightarrow> jvalue pydict" where
  "evaluate sp version =
     foldl (\<lambda>snapshot (key, versions).
              case walk_versions (version_key version) versions of
                (True, value) \<Rightarrow> dict_set key value snapshot
              | (False, _) \<Rightarrow> snapshot)
           [] (settings sp)"

text \<open>
  \<open>changed_settings\<close> compares the two values with Python's \<open>!=\<close>. Python's
  \<open>==\<close> on these values: a \<open>bool\<close> is an \<open>int\<close> (\<open>True == 1\<close>), lists are equal
  when their elements are, position by position, and dicts are equal when they have the
  same number of keys and every key of the first is in the second with an equal value.
\<close>

fun py_eq :: "jvalue \<Rightarrow> jvalue \<Rightarrow> bool"
  and py_eq_list :: "jvalue list \<Rightarrow> jvalue list \<Rightarrow> bool"
  and py_eq_items :: "(string \<times> jvalue) list \<Rightarrow> (string \<times> jvalue) list \<Rightarrow> bool" where
  "py_eq JNull JNull = True"
| "py_eq (JBool a) (JBool b) = (a = b)"
| "py_eq (JBool a) (JInt n) = ((if a then 1 else 0) = n)"
| "py_eq (JInt m) (JBool b) = (m = (if b then 1 else 0))"
| "py_eq (JInt m) (JInt n) = (m = n)"
| "py_eq (JStr s) (JStr t) = (s = t)"
| "py_eq (JList xs) (JList ys) = py_eq_list xs ys"
| "py_eq (JDict a) (JDict b) = (length a = length b \<and> py_eq_items a b)"
| "py_eq _ _ = False"
| "py_eq_list [] [] = True"
| "py_eq_list (x # xs) (y # ys) = (py_eq x y \<and> py_eq_list xs ys)"
| "py_eq_list _ _ = False"
| "py_eq_items [] b = True"
| "py_eq_items (kv # rest) b =
     ((case map_of b (fst kv) of None \<Rightarrow> False | Some w \<Rightarrow> py_eq (snd kv) w)
      \<and> py_eq_items rest b)"

definition changed_settings ::
  "StoredProfile \<Rightarrow> string \<Rightarrow> string \<Rightarrow> (jvalue \<times> jvalue) pydict" where
  "changed_settings sp from_version to_version =
     foldl (\<lambda>changes key.
              let old_val = get_at_version sp key from_version;
                  new_val = get_at_version sp key to_version
              in if \<not> py_eq old_val new_val then dict_set key (old_val, new_val) changes
                 else changes)
           [] (map fst (settings sp))"

section \<open>Canonical JSON (\<open>store.py\<close>, \<open>_normalize\<close>)\<close>

text \<open>
  \<open>json.dumps(value, sort_keys=True, ensure_ascii=False)\<close>: decimal integers,
  \<open>true\<close>, \<open>false\<close>, \<open>null\<close>, strings in double quotes with the escapes of the
  \<open>json\<close> module, items separated by a comma and a space, keys sorted at every depth.
\<close>

definition digit_char :: "nat \<Rightarrow> char" where
  "digit_char n = ''0123456789abcdef'' ! n"

fun show_nat :: "nat \<Rightarrow> string" where
  "show_nat n = (if n < 10 then [digit_char n] else show_nat (n div 10) @ [digit_char (n mod 10)])"

declare show_nat.simps [simp del]

definition show_int :: "int \<Rightarrow> string" where
  "show_int i = (if i < 0 then CHR ''-'' # show_nat (nat (- i)) else show_nat (nat i))"

definition json_escape_char :: "char \<Rightarrow> string" where
  "json_escape_char c =
     (if c = CHR 0x5C then [CHR 0x5C, CHR 0x5C]
      else if c = CHR 0x22 then [CHR 0x5C, CHR 0x22]
      else if c = CHR 0x08 then [CHR 0x5C, CHR ''b'']
      else if c = CHR 0x0C then [CHR 0x5C, CHR ''f'']
      else if c = CHR 0x0A then [CHR 0x5C, CHR ''n'']
      else if c = CHR 0x0D then [CHR 0x5C, CHR ''r'']
      else if c = CHR 0x09 then [CHR 0x5C, CHR ''t'']
      else if (of_char c :: nat) < 32
        then [CHR 0x5C, CHR ''u'', CHR ''0'', CHR ''0'',
              digit_char (of_char c div 16), digit_char (of_char c mod 16)]
      else [c])"

definition json_string :: "string \<Rightarrow> string" where
  "json_string s = [CHR 0x22] @ concat (map json_escape_char s) @ [CHR 0x22]"

fun join :: "string \<Rightarrow> string list \<Rightarrow> string" where
  "join sep [] = []"
| "join sep [x] = x"
| "join sep (x # y # ys) = x @ sep @ join sep (y # ys)"

fun json_dumps :: "jvalue \<Rightarrow> string" where
  "json_dumps JNull = ''null''"
| "json_dumps (JBool b) = (if b then ''true'' else ''false'')"
| "json_dumps (JInt n) = show_int n"
| "json_dumps (JStr s) = json_string s"
| "json_dumps (JList xs) = ''['' @ join '', '' (map json_dumps xs) @ '']''"
| "json_dumps (JDict kvs) =
     ''{'' @ join '', '' (map (\<lambda>kv. json_string (fst kv) @ '': '' @ json_dumps (snd kv))
                              (sort_key fst kvs)) @ ''}''"

text \<open>\<open>_normalize\<close>: the empty string for \<open>None\<close>, the canonical JSON text otherwise.\<close>

definition normalize_value :: "jvalue \<Rightarrow> string" where
  "normalize_value v = (if v = JNull then [] else json_dumps v)"

section \<open>The resource store (\<open>resources.py\<close>)\<close>

text \<open>
  \<open>ResourceStore\<close>: the manifest maps a content hash to the entry of the file stored
  under it; \<open>res_files\<close> are the names of the resource files in the directory, and
  \<open>manifest_file\<close> is what \<open>_manifest.json\<close> holds, once written. The SHA-256 digest
  is a parameter of \<open>store\<close>.
\<close>

record ManifestEntry =
  e_filename :: string
  e_size :: nat
  e_type :: string

record ResourceStore =
  manifest :: "ManifestEntry pydict"
  res_files :: "string list"
  manifest_file :: "ManifestEntry pydict option"

text \<open>\<open>Path.suffix\<close>: the last extension of a file name, with its dot, or nothing.\<close>

definition suffix_of :: "string \<Rightarrow> string" where
  "suffix_of fname =
     (let ext = rev (takeWhile (\<lambda>c. c \<noteq> CHR ''.'') (rev fname))
      in if length ext < length fname \<and> ext \<noteq> [] \<and> Suc (length ext) < length fname
         then CHR ''.'' # ext else [])"

definition store :: "(string \<Rightarrow> string) \<Rightarrow> ResourceStore \<Rightarrow> string \<Rightarrow> string \<Rightarrow> ResourceStore \<times> string" where
  "store sha256 rs fname content =
     (let hash_hex = sha256 content;
          dest = hash_hex @ lower (suffix_of fname);
          files' = (if dest \<in> set (res_files rs) then res_files rs else res_files rs @ [dest])
      in (rs\<lparr>res_files := files',
              manifest := dict_set hash_hex
                 \<lparr>e_filename = fname, e_size = length content,
                  e_type = lower (dropWhile (\<lambda>c. c = CHR ''.'') (suffix_of fname))\<rparr>
                 (manifest rs)\<rparr>,
          hash_hex))"

definition save_manifest :: "ResourceStore \<Rightarrow> ResourceStore" where
  "save_manifest rs = rs\<lparr>manifest_file := Some (sort_key fst (manifest rs))\<rparr>"

definition get_path :: "ResourceStore \<Rightarrow> string \<Rightarrow> string option" where
  "get_path rs hash_hex =
     (case map_of (manifest rs) hash_hex of
        None \<Rightarrow> None
      | Some entry \<Rightarrow>
          (let path = hash_hex @ ''.'' @ e_type entry
           in if path \<in> set (res_files rs) then Some path else None))"

text \<open>The body of the loop of \<open>gc\<close>, and \<open>gc\<close>: the new store and the removed hashes.\<close>

definition gc_step ::
  "string set \<Rightarrow> ResourceStore \<times> string list \<Rightarrow> string \<Rightarrow> ResourceStore \<times> string list" where
  "gc_step referenced_hashes acc hash_hex =
     (let rs = fst acc; removed = snd acc
      in if hash_hex \<notin> referenced_hashes then
           (let rs1 = (case get_path rs hash_hex of
                         Some path \<Rightarrow>
                           if path \<in> set (res_files rs)
                           then rs\<lparr>res_files := removeAll path (res_files rs)\<rparr> else rs
                       | None \<Rightarrow> rs)
            in (rs1\<lparr>manifest := dict_del hash_hex (manifest rs1)\<rparr>, removed @ [hash_hex]))
         else (rs, removed))"

definition gc :: "ResourceStore \<Rightarrow> string set \<Rightarrow> ResourceStore \<times> string list" where
  "gc rs referenced_hashes =
     (let r = foldl (gc_step referenced_hashes) (rs, []) (map fst (manifest rs))
      in (if snd r \<noteq> [] then save_manifest (fst r) else fst r, snd r))"

section \<open>The profile store (\<open>store.py\<close>)\<close>

text \<open>
  The store directory. A profile file is addressed by its path,
  \<open>root / slicer / vendor / type / "{sanitized name}.json"\<close>, built by \<open>pathlib\<close>, and holds
  a \<open>StoredProfile\<close> (written as JSON and read back unchanged). \<open>metas\<close> holds
  \<open>_meta.json\<close> of each slicer.

  A path is the list of its components, below the store root or, after a segment that
  begins with a slash, below the root of the file system. Joining a segment cuts it at its
  slashes and drops the empty components and \<open>.\<close>: an empty vendor adds no directory.
  \<open>..\<close> stays a component, as in \<open>pathlib\<close>; the file system would resolve it, so
  the model follows the code on paths without it.
\<close>

type_synonym path = "bool \<times> string list"

definition path_parts :: "string \<Rightarrow> string list" where
  "path_parts seg = filter (\<lambda>c. c \<noteq> [] \<and> c \<noteq> ''.'') (split_on (\<lambda>c. c = CHR ''/'') seg)"

definition path_join :: "path \<Rightarrow> string \<Rightarrow> path" where
  "path_join p seg =
     (if prefix ''/'' seg then (True, path_parts seg) else (fst p, snd p @ path_parts seg))"

definition store_root :: path where
  "store_root = (False, [])"

record Meta =
  m_versions :: "string list"
  m_last_ingested :: "string option"

record ProfileStore =
  files :: "(path \<times> StoredProfile) list"
  metas :: "(string \<times> Meta) list"

record IngestionReport =
  r_slicer :: SlicerType
  r_version :: string
  profiles_processed :: nat
  added :: "string list"
  removed :: "string list"
  changed :: "(string list) pydict"
  unchanged :: int

text \<open>
  \<open>_sanitize\<close>: the characters \<open><>:"/\|?*\<close> become underscores, runs of underscores
  collapse, and underscores, dots and spaces are stripped from both ends.
\<close>

fun collapse_underscores :: "string \<Rightarrow> string" where
  "collapse_underscores (a # b # cs) =
     (if a = CHR ''_'' \<and> b = CHR ''_'' then collapse_underscores (b # cs)
      else a # collapse_underscores (b # cs))"
| "collapse_underscores cs = cs"

definition sanitize :: "string \<Rightarrow> string" where
  "sanitize nm =
     strip_chars (\<lambda>c. c \<in> set ''_. '')
       (collapse_underscores
          (map (\<lambda>c. if c \<in> set [CHR ''<'', CHR ''>'', CHR '':'', CHR 0x22, CHR ''/'',
                                   CHR 0x5C, CHR ''|'', CHR ''?'', CHR ''*'']
                     then CHR ''_'' else c) nm))"

definition profile_key :: "SlicerType \<Rightarrow> string \<Rightarrow> string \<Rightarrow> string \<Rightarrow> string" where
  "profile_key sl pt vend nm = slicer_value sl @ ''/'' @ vend @ ''/'' @ pt @ ''/'' @ nm"

definition profile_path :: "string \<Rightarrow> string \<Rightarrow> string \<Rightarrow> string \<Rightarrow> path" where
  "profile_path slicer_val pt vend nm =
     path_join (path_join (path_join (path_join store_root slicer_val) vend) pt)
       (sanitize nm @ ''.json'')"

definition load :: "ProfileStore \<Rightarrow> string \<Rightarrow> string \<Rightarrow> string \<Rightarrow> string \<Rightarrow> StoredProfile option" where
  "load st slicer_val pt vend nm = map_of (files st) (profile_path slicer_val pt vend nm)"

definition save :: "ProfileStore \<Rightarrow> StoredProfile \<Rightarrow> ProfileStore" where
  "save st stored =
     st\<lparr>files := dict_set (profile_path (slicer stored) (profile_type stored)
                              (vendor stored) (name stored)) stored (files st)\<rparr>"

definition delete :: "ProfileStore \<Rightarrow> string \<Rightarrow> string \<Rightarrow> string \<Rightarrow> string \<Rightarrow> ProfileStore" where
  "delete st slicer_val pt vend nm =
     st\<lparr>files := dict_del (profile_path slicer_val pt vend nm) (files st)\<rparr>"

text \<open>\<open>get\<close>: load a stored profile by its coordinates.\<close>

definition get :: "ProfileStore \<Rightarrow> SlicerType \<Rightarrow> string \<Rightarrow> string \<Rightarrow> string \<Rightarrow> StoredProfile option" where
  "get st sl pt vend nm = load st (slicer_value sl) pt vend nm"

text \<open>
  \<open>_list_profile_keys\<close> walks the directories: the vendor directories in the slicer's
  directory, but not those that start with an underscore; the type directories in each;
  and every \<open>*.json\<close> file below a type directory, at any depth. A file contributes the
  key made of the slicer, the names of the two directories and the stem of the file name
  (\<open>Path.stem\<close>: the name without its last extension). So a file that is less than two
  directories below the slicer's directory is not listed, and a path through \<open>..\<close> is
  not below the directories it names. The code returns a set; the list here is in
  directory order, without duplicates.
\<close>

definition path_stem :: "string \<Rightarrow> string" where
  "path_stem fname = take (length fname - length (suffix_of fname)) fname"

definition keys_of_path :: "string \<Rightarrow> path \<Rightarrow> string list" where
  "keys_of_path slicer_val p =
     (case p of
        (False, s # vend # pt # f # rest) \<Rightarrow>
          if s = slicer_val \<and> ''..'' \<notin> set (snd p) \<and> \<not> prefix ''_'' vend
             \<and> suffix ''.json'' (last (f # rest))
          then [slicer_val @ ''/'' @ vend @ ''/'' @ pt @ ''/'' @ path_stem (last (f # rest))]
          else []
      | _ \<Rightarrow> [])"

definition list_profile_keys :: "ProfileStore \<Rightarrow> SlicerType \<Rightarrow> string list" where
  "list_profile_keys st sl =
     remdups (concat (map (keys_of_path (slicer_value sl)) (map fst (files st))))"

definition load_meta :: "ProfileStore \<Rightarrow> SlicerType \<Rightarrow> Meta" where
  "load_meta st sl =
     (case map_of (metas st) (slicer_value sl) of
        None \<Rightarrow> \<lparr>m_versions = [], m_last_ingested = None\<rparr>
      | Some m \<Rightarrow> m)"

definition update_meta :: "ProfileStore \<Rightarrow> SlicerType \<Rightarrow> string \<Rightarrow> ProfileStore" where
  "update_meta st sl version =
     (let meta = load_meta st sl;
          vs = (if version \<in> set (m_versions meta) then m_versions meta
                else m_versions meta @ [version])
      in st\<lparr>metas := dict_set (slicer_value sl)
                 \<lparr>m_versions = vs, m_last_ingested = Some version\<rparr> (metas st)\<rparr>)"

text \<open>\<open>_META_KEYS\<close> and \<open>_create_stored\<close>.\<close>

definition META_KEYS :: "string list" where
  "META_KEYS = [''renamed_from'']"

definition create_stored :: "ParsedProfile \<Rightarrow> string \<Rightarrow> StoredProfile" where
  "create_stored parsed version =
     \<lparr>slicer = slicer_value (p_slicer parsed),
      profile_type = profile_type_value (p_profile_type parsed),
      name = p_name parsed, vendor = p_vendor parsed,
      first_seen = version, last_seen = version,
      filament_id = p_filament_id parsed, setting_id = p_setting_id parsed,
      renamed_from = None,
      settings = foldl (\<lambda>s kv. if fst kv \<in> set META_KEYS then s
                                else dict_set (fst kv) [(version, snd kv)] s)
                   [] (p_settings parsed)\<rparr>"

text \<open>
  \<open>_merge_version\<close>: a new history entry for every setting whose canonical text differs
  from that of the latest stored value; the changed keys are returned.
\<close>

definition merge_version ::
  "StoredProfile \<Rightarrow> ParsedProfile \<Rightarrow> string \<Rightarrow> StoredProfile \<times> string list" where
  "merge_version stored parsed version =
     foldl (\<lambda>acc kv.
              let sp = fst acc; chg = snd acc in
              if fst kv \<in> set META_KEYS then acc
              else if normalize_value (get_latest sp (fst kv)) \<noteq> normalize_value (snd kv)
              then (sp\<lparr>settings :=
                        dict_set (fst kv)
                          (dict_set version (snd kv)
                             (case map_of (settings sp) (fst kv) of None \<Rightarrow> [] | Some h \<Rightarrow> h))
                          (settings sp)\<rparr>,
                    chg @ [fst kv])
              else acc)
           (stored\<lparr>last_seen := version\<rparr>, []) (p_settings parsed)"

text \<open>
  \<open>_extract_renamed_from\<close>: a non-empty string, or the first string among the values of
  a non-empty dict.
\<close>

definition extract_renamed_from :: "jvalue pydict \<Rightarrow> string option" where
  "extract_renamed_from setts =
     (case map_of setts ''renamed_from'' of
        Some (JStr s) \<Rightarrow> if s = [] then None else Some s
      | Some (JDict kvs) \<Rightarrow>
          (case filter (\<lambda>v. case v of JStr _ \<Rightarrow> True | _ \<Rightarrow> False) (map snd kvs) of
             JStr s # _ \<Rightarrow> Some s
           | _ \<Rightarrow> None)
      | _ \<Rightarrow> None)"

text \<open>
  \<open>_merge_rename\<close>: the successor takes the predecessor's \<open>first_seen\<close> and name; for
  each key of the predecessor (the step of the loop), its history updated with the
  successor's entries, or its history alone where the successor has none.
\<close>

definition merge_rename_step ::
  "StoredProfile \<Rightarrow> string \<times> jvalue pydict \<Rightarrow> StoredProfile" where
  "merge_rename_step np kv =
     np\<lparr>settings :=
          dict_set (fst kv)
            (case map_of (settings np) (fst kv) of
               Some new_versions \<Rightarrow> dict_update (snd kv) new_versions
             | None \<Rightarrow> snd kv)
            (settings np)\<rparr>"

definition merge_rename :: "StoredProfile \<Rightarrow> StoredProfile \<Rightarrow> StoredProfile" where
  "merge_rename new_profile old_profile =
     foldl merge_rename_step
       (new_profile\<lparr>first_seen := first_seen old_profile,
                     renamed_from := Some (name old_profile)\<rparr>)
       (settings old_profile)"

text \<open>
  The body of the loop of \<open>ingest_profiles\<close>; the state is the store, \<open>added\<close>,
  \<open>changed\<close> and \<open>seen_keys\<close>.
\<close>

type_synonym ingest_state =
  "ProfileStore \<times> string list \<times> (string list) pydict \<times> string list"

definition ingest_one :: "SlicerType \<Rightarrow> string \<Rightarrow> ingest_state \<Rightarrow> ParsedProfile \<Rightarrow> ingest_state" where
  "ingest_one sl version state p =
     (case state of (st, add, chg, seen_keys) \<Rightarrow>
        let pt = profile_type_value (p_profile_type p);
            seen' = seen_keys @ [profile_key sl pt (p_vendor p) (p_name p)]
        in case load st (slicer_value sl) pt (p_vendor p) (p_name p) of
             None \<Rightarrow>
               (let stored = create_stored p version;
                    merged =
                      (case extract_renamed_from (p_settings p) of
                         None \<Rightarrow> (stored, st)
                       | Some old_name \<Rightarrow>
                           if old_name = [] then (stored, st)
                           else (case load st (slicer_value sl) pt (p_vendor p) old_name of
                                   None \<Rightarrow> (stored, st)
                                 | Some old_profile \<Rightarrow>
                                     (merge_rename stored old_profile,
                                      delete st (slicer_value sl) pt (p_vendor p) old_name)))
                in (save (snd merged) (fst merged), add @ [p_name p], chg, seen'))
           | Some existing \<Rightarrow>
               (let prev_last_seen = last_seen existing;
                    mv = merge_version existing p version;
                    chg' = (if snd mv \<noteq> [] then dict_set (p_name p) (snd mv) chg else chg);
                    st' = (if snd mv \<noteq> [] \<or> prev_last_seen \<noteq> version
                           then save st (fst mv) else st)
                in (st', add, chg', seen')))"

definition ingest_profiles ::
  "ProfileStore \<Rightarrow> SlicerType \<Rightarrow> string \<Rightarrow> ParsedProfile list \<Rightarrow> ProfileStore \<times> IngestionReport" where
  "ingest_profiles st sl version profiles =
     (case foldl (ingest_one sl version) (st, [], [], []) profiles of
        (st1, add, chg, seen_keys) \<Rightarrow>
          let all_keys = list_profile_keys st1 sl;
              rem = filter (\<lambda>k. k \<notin> set seen_keys) all_keys;
              st2 = update_meta st1 sl version
          in (st2,
              \<lparr>r_slicer = sl, r_version = version,
               profiles_processed = length profiles,
               added = add, removed = rem, changed = chg,
               unchanged = int (length profiles) - int (length add) - int (length chg)\<rparr>))"

text \<open>
  \<open>rewrite_resource_refs\<close> (\<open>resources.py\<close>), for one profile: a resource setting that
  holds the name of a collected file is replaced by \<open>sha256:\<close> and the file's hash.
\<close>

definition RESOURCE_SETTING_KEYS :: "string list" where
  "RESOURCE_SETTING_KEYS = [''bed_model'', ''bed_texture'', ''thumbnail'', ''hotend_model'']"

definition rewrite_resource_refs :: "string pydict \<Rightarrow> ParsedProfile \<Rightarrow> ParsedProfile" where
  "rewrite_resource_refs resource_map profile =
     foldl (\<lambda>p key.
              case map_of (p_settings p) key of
                Some (JStr s) \<Rightarrow>
                  (if s \<noteq> [] then
                     (case map_of resource_map s of
                        Some h \<Rightarrow> p\<lparr>p_settings := dict_set key (JStr (''sha256:'' @ h)) (p_settings p)\<rparr>
                      | None \<Rightarrow> p)
                   else p)
              | _ \<Rightarrow> p)
           profile RESOURCE_SETTING_KEYS"

definition empty_store :: ProfileStore where
  "empty_store = \<lparr>files = [], metas = []\<rparr>"

text \<open>
  The invariant of the store directory: every file holds the profile that \<open>_save\<close>
  writes to that path, that is, the path is the one computed from the profile's own
  slicer, type, vendor and name.
\<close>

definition store_ok :: "ProfileStore \<Rightarrow> bool" where
  "store_ok st =
     (\<forall>e\<in>set (files st).
        profile_path (slicer (snd e)) (profile_type (snd e)) (vendor (snd e)) (name (snd e))
          = fst e)"

text \<open>
  A plain directory name: a single path component, other than \<open>.\<close> and \<open>..\<close>.
\<close>

definition dir_name :: "string \<Rightarrow> bool" where
  "dir_name s = (s \<noteq> [] \<and> s \<noteq> ''.'' \<and> s \<noteq> ''..'' \<and> CHR ''/'' \<notin> set s)"


section \<open>Compatibility conditions (\<open>conditions.py\<close>)\<close>

text \<open>
  Exceptions are values. The functions of the Python library that the evaluator calls and
  that are not modelled here are parameters: \<open>re_match pattern s\<close> is whether
  \<open>re.match(pattern, s, re.DOTALL)\<close> finds a match, \<open>None\<close> when the pattern does not
  compile; \<open>py_float v\<close> is \<open>float(v)\<close> or the exception that it raises; \<open>float_le\<close>
  and \<open>float_lt\<close> are \<open><=\<close> and \<open><\<close> on floats. The strings are ASCII text.
\<close>

datatype py_error = ValueError | TypeError | IndexError | KeyError | OverflowError | ReError

record 'f builtins =
  re_match :: "string \<Rightarrow> string \<Rightarrow> bool option"
  py_float :: "jvalue \<Rightarrow> py_error + 'f"
  float_le :: "'f \<Rightarrow> 'f \<Rightarrow> bool"
  float_lt :: "'f \<Rightarrow> 'f \<Rightarrow> bool"

text \<open>\<open>str(value)\<close> and \<open>repr(value)\<close> of a configuration value.\<close>

definition repr_char :: "char \<Rightarrow> char \<Rightarrow> string" where
  "repr_char q c =
     (if c = CHR 0x5C then [CHR 0x5C, CHR 0x5C]
      else if c = q then [CHR 0x5C, q]
      else if c = CHR 0x0A then [CHR 0x5C, CHR ''n'']
      else if c = CHR 0x0D then [CHR 0x5C, CHR ''r'']
      else if c = CHR 0x09 then [CHR 0x5C, CHR ''t'']
      else if (of_char c :: nat) < 32 \<or> (of_char c :: nat) = 127
        then [CHR 0x5C, CHR ''x'', digit_char (of_char c div 16), digit_char (of_char c mod 16)]
      else [c])"

definition repr_str :: "string \<Rightarrow> string" where
  "repr_str s =
     (let q = (if CHR 0x27 \<in> set s \<and> CHR 0x22 \<notin> set s then CHR 0x22 else CHR 0x27)
      in [q] @ concat (map (repr_char q) s) @ [q])"

fun py_repr :: "jvalue \<Rightarrow> string" where
  "py_repr JNull = ''None''"
| "py_repr (JBool b) = (if b then ''True'' else ''False'')"
| "py_repr (JInt n) = show_int n"
| "py_repr (JStr s) = repr_str s"
| "py_repr (JList xs) = ''['' @ join '', '' (map py_repr xs) @ '']''"
| "py_repr (JDict kvs) =
     ''{'' @ join '', '' (map (\<lambda>kv. repr_str (fst kv) @ '': '' @ py_repr (snd kv)) kvs) @ ''}''"

definition py_str :: "jvalue \<Rightarrow> string" where
  "py_str v = (case v of JStr s \<Rightarrow> s | _ \<Rightarrow> py_repr v)"

text \<open>
  \<open>var_re.fullmatch\<close>: a name of word characters, then optionally an index of digits
  in square brackets. The result is the name and the index.
\<close>

definition is_word_char :: "char \<Rightarrow> bool" where
  "is_word_char c =
     (let n = (of_char c :: nat)
      in (48 \<le> n \<and> n \<le> 57) \<or> (65 \<le> n \<and> n \<le> 90) \<or> (97 \<le> n \<and> n \<le> 122) \<or> n = 95)"

definition var_fullmatch :: "string \<Rightarrow> (string \<times> string option) option" where
  "var_fullmatch key =
     (let w = takeWhile is_word_char key; rest = dropWhile is_word_char key
      in if w = [] then None
         else (case rest of
                 [] \<Rightarrow> Some (w, None)
               | c # r \<Rightarrow>
                   if c = CHR ''['' \<and> r \<noteq> [] \<and> last r = CHR '']'' \<and> butlast r \<noteq> []
                      \<and> list_all is_digit (butlast r)
                   then Some (w, Some (butlast r)) else None))"

text \<open>\<open>value[i]\<close> for an index that is not negative.\<close>

definition subscript :: "jvalue \<Rightarrow> nat \<Rightarrow> py_error + jvalue" where
  "subscript v i =
     (case v of
        JList xs \<Rightarrow> if i < length xs then Inr (xs ! i) else Inl IndexError
      | JStr s \<Rightarrow> if i < length s then Inr (JStr [s ! i]) else Inl IndexError
      | JDict kvs \<Rightarrow> Inl KeyError
      | _ \<Rightarrow> Inl TypeError)"

definition split_semis :: "string \<Rightarrow> string list" where
  "split_semis s = split_on (\<lambda>c. c = CHR '';'' \<or> c = CHR '','') s"

text \<open>
  \<open>get_value_from_config\<close>. \<open>config_plain\<close> is the call for a name without index
  (the two inner calls for \<open>num_extruders\<close>): a list of one element stands for its
  element, except for PrusaSlicer.
\<close>

definition config_plain :: "jvalue pydict \<Rightarrow> string \<Rightarrow> string \<Rightarrow> jvalue" where
  "config_plain merged_data slicer_name k =
     (case map_of merged_data k of
        None \<Rightarrow> JNull
      | Some v \<Rightarrow>
          if slicer_name \<noteq> ''prusaslicer''
          then (case v of JList [x] \<Rightarrow> x | _ \<Rightarrow> v) else v)"

definition get_value_from_config ::
  "jvalue pydict \<Rightarrow> string \<Rightarrow> string \<Rightarrow> py_error + jvalue" where
  "get_value_from_config merged_data slicer_name key =
     (case var_fullmatch key of
        None \<Rightarrow> Inr JNull
      | Some (k, index) \<Rightarrow>
          (case map_of merged_data k of
             Some v \<Rightarrow>
               (case index of
                  None \<Rightarrow> Inr (config_plain merged_data slicer_name k)
                | Some ds \<Rightarrow>
                    if slicer_name = ''prusaslicer''
                    then (case v of
                            JStr s \<Rightarrow> subscript (JList (map JStr (split_semis s)))
                                        (nat (digits_value ds))
                          | _ \<Rightarrow> Inl TypeError)
                    else subscript v (nat (digits_value ds)))
           | None \<Rightarrow>
               if key = ''num_extruders'' then
                 (let extruders_count = config_plain merged_data slicer_name ''extruders_count''
                  in if extruders_count \<noteq> JNull then Inr extruders_count
                     else (let nozzle_diameters = config_plain merged_data slicer_name ''nozzle_diameter''
                           in if nozzle_diameters \<noteq> JNull
                              then (case nozzle_diameters of
                                      JStr s \<Rightarrow> Inr (JInt (int (length (split_semis s))))
                                    | _ \<Rightarrow> Inl TypeError)
                              else Inr JNull))
               else Inr JNull))"

text \<open>\<open>sub in s\<close> and \<open>s.split(sep)\<close> for a separator that is not empty.\<close>

fun contains :: "string \<Rightarrow> string \<Rightarrow> bool" where
  "contains sub [] = (sub = [])"
| "contains sub (c # cs) = (prefix sub (c # cs) \<or> contains sub cs)"

fun split_str :: "string \<Rightarrow> string \<Rightarrow> string list" where
  "split_str sep [] = [[]]"
| "split_str sep (c # cs) =
     (if sep \<noteq> [] \<and> prefix sep (c # cs)
      then [] # split_str sep (drop (length sep - 1) cs)
      else (case split_str sep cs of [] \<Rightarrow> [[c]] | w # ws \<Rightarrow> (c # w) # ws))"

definition OPERATORS :: "string list" where
  "OPERATORS = [''=~'', ''!~'', ''=='', ''!='', ''>='', ''<='', ''>'', ''<'']"

definition remove_quotes :: "string \<Rightarrow> string" where
  "remove_quotes s0 =
     (let s = strip s0
      in if s \<noteq> [] \<and> hd s = CHR 0x22 \<and> last s = CHR 0x22 then butlast (tl s) else s)"

text \<open>\<open>_evaluate_single_condition\<close>.\<close>

definition evaluate_single_condition ::
  "'f builtins \<Rightarrow> (string \<Rightarrow> py_error + jvalue) \<Rightarrow> string \<Rightarrow> py_error + bool" where
  "evaluate_single_condition B get_value condition0 =
     (let condition = strip condition0
      in if lower condition = ''true'' then Inr True
         else if lower condition = ''false'' then Inr False
         else (case find (\<lambda>op. contains op condition) OPERATORS of
                 None \<Rightarrow>
                   (case get_value condition of
                      Inl e \<Rightarrow> Inl e
                    | Inr config_value \<Rightarrow>
                        Inr (config_value = JStr ''1'' \<or> config_value = JStr ''true''))
               | Some operator \<Rightarrow>
                   (case split_str operator condition of
                      [config_key, check_value] \<Rightarrow>
                        (case get_value (strip config_key) of
                           Inl e \<Rightarrow> Inl e
                         | Inr config_value \<Rightarrow>
                             if config_value = JNull then Inr False
                             else if operator = ''=~'' then
                               (case re_match B (strip_chars (\<lambda>c. c = CHR ''/'') (strip check_value))
                                       (py_str config_value) of
                                  None \<Rightarrow> Inl ReError | Some m \<Rightarrow> Inr m)
                             else if operator = ''!~'' then
                               (case re_match B (strip_chars (\<lambda>c. c = CHR ''/'') (strip check_value))
                                       (py_str config_value) of
                                  None \<Rightarrow> Inl ReError | Some m \<Rightarrow> Inr (\<not> m))
                             else if operator = ''=='' then
                               Inr (py_str config_value = remove_quotes check_value)
                             else if operator = ''!='' then
                               Inr (py_str config_value \<noteq> remove_quotes check_value)
                             else
                               (case py_float B config_value of
                                  Inl e \<Rightarrow>
                                    if e = ValueError \<or> e = TypeError then Inr False else Inl e
                                | Inr lhs \<Rightarrow>
                                    (case py_float B (JStr (strip check_value)) of
                                       Inl e \<Rightarrow>
                                         if e = ValueError \<or> e = TypeError then Inr False
                                         else Inl e
                                     | Inr rhs \<Rightarrow>
                                         if operator = ''>='' then Inr (float_le B rhs lhs)
                                         else if operator = ''<='' then Inr (float_le B lhs rhs)
                                         else if operator = ''>'' then Inr (float_lt B rhs lhs)
                                         else Inr (float_lt B lhs rhs))))
                    | _ \<Rightarrow> Inr False)))"

text \<open>
  \<open>_find_first_parenthesis_set\<close>: the scan over the indices of the string, with the
  depth, the regex flag and the start index as its state.
\<close>

function find_loop :: "string \<Rightarrow> nat \<Rightarrow> int \<Rightarrow> bool \<Rightarrow> nat \<Rightarrow> (nat \<times> nat) option" where
  "find_loop s idx depth is_in_regex start_idx =
     (if length s \<le> idx then None
      else
        (let ch = s ! idx;
             in_re = (if ch = CHR ''/'' then
                        (if is_in_regex then False
                         else if 2 \<le> idx \<and> (take 2 (drop (idx - 2) s) = ''=~''
                                             \<or> take 2 (drop (idx - 2) s) = ''!~'')
                              then True else is_in_regex)
                      else is_in_regex)
         in if in_re then find_loop s (Suc idx) depth in_re start_idx
            else if ch = CHR ''('' then
              find_loop s (Suc idx) (depth + 1) in_re (if depth = 0 then idx else start_idx)
            else if ch = CHR '')'' then
              (if depth - 1 = 0 then Some (start_idx, idx)
               else find_loop s (Suc idx) (depth - 1) in_re start_idx)
            else find_loop s (Suc idx) depth in_re start_idx))"
  by pat_completeness auto
termination
  by (relation "measure (\<lambda>(s, idx, depth, r, st). length s - idx)") auto

declare find_loop.simps [simp del]

definition find_first_parenthesis_set :: "string \<Rightarrow> (nat \<times> nat) option" where
  "find_first_parenthesis_set s = find_loop s 0 0 False 0"

text \<open>
  The split on the logical operators, \<open>re.split(r" and | && | or | \|\|", condition)\<close>,
  and the operators read off the whitespace-separated words.
\<close>

definition logical_match :: "string \<Rightarrow> nat option" where
  "logical_match s =
     (if prefix '' and '' s then Some 5
      else if prefix '' && '' s then Some 4
      else if prefix '' or '' s then Some 4
      else if prefix '' ||'' s then Some 3
      else None)"

fun split_logical :: "string \<Rightarrow> string list" where
  "split_logical [] = [[]]"
| "split_logical (c # cs) =
     (case logical_match (c # cs) of
        Some n \<Rightarrow> [] # split_logical (drop (n - 1) cs)
      | None \<Rightarrow> (case split_logical cs of [] \<Rightarrow> [[c]] | w # ws \<Rightarrow> (c # w) # ws))"

definition py_split :: "string \<Rightarrow> string list" where
  "py_split s = filter (\<lambda>w. w \<noteq> []) (split_on is_space s)"

definition extract_operators :: "string \<Rightarrow> string list" where
  "extract_operators condition =
     concat (map (\<lambda>w. if w = ''and'' \<or> w = ''&&'' then [''and'']
                       else if w = ''or'' \<or> w = ''||'' then [''or''] else [])
                 (py_split condition))"

text \<open>
  One term of the loop: strip it, take a leading \<open>! \<close> as negation, evaluate. Then the
  loop over the terms, with \<open>prev_ret\<close> and the index, and the part of
  \<open>_evaluate_expression\<close> after the parentheses are gone.
\<close>

definition evaluate_term ::
  "'f builtins \<Rightarrow> (string \<Rightarrow> py_error + jvalue) \<Rightarrow> string \<Rightarrow> py_error + bool" where
  "evaluate_term B get_value part0 =
     (let part = strip part0;
          is_not = prefix ''! '' part;
          part' = (if is_not then drop 2 part else part)
      in case evaluate_single_condition B get_value part' of
           Inl e \<Rightarrow> Inl e
         | Inr ret \<Rightarrow> Inr (if is_not then \<not> ret else ret))"

fun eval_parts ::
  "(string \<Rightarrow> py_error + bool) \<Rightarrow> bool \<Rightarrow> bool \<Rightarrow> string list \<Rightarrow> bool option \<Rightarrow> nat
     \<Rightarrow> string list \<Rightarrow> py_error + bool option" where
  "eval_parts ev all_and all_or operators prev_ret idx [] = Inr prev_ret"
| "eval_parts ev all_and all_or operators prev_ret idx (part # rest) =
     (case ev part of
        Inl e \<Rightarrow> Inl e
      | Inr ret \<Rightarrow>
          if all_and \<and> \<not> ret then Inr (Some False)
          else if all_or \<and> ret then Inr (Some True)
          else (case prev_ret of
                  None \<Rightarrow> eval_parts ev all_and all_or operators (Some ret) (Suc idx) rest
                | Some pr \<Rightarrow>
                    if idx - 1 < length operators then
                      eval_parts ev all_and all_or operators
                        (Some (if operators ! (idx - 1) = ''and'' then pr \<and> ret
                               else if operators ! (idx - 1) = ''or'' then pr \<or> ret
                               else pr))
                        (Suc idx) rest
                    else Inl IndexError))"

definition evaluate_flat ::
  "'f builtins \<Rightarrow> (string \<Rightarrow> py_error + jvalue) \<Rightarrow> string \<Rightarrow> py_error + bool option" where
  "evaluate_flat B get_value condition =
     (let parts = split_logical condition;
          operators = extract_operators condition
      in eval_parts (evaluate_term B get_value)
           (''or'' \<notin> set operators) (''and'' \<notin> set operators) operators None 0 parts)"

text \<open>\<open>str(inner_result)\<close>.\<close>

definition str_result :: "bool option \<Rightarrow> string" where
  "str_result r = (case r of None \<Rightarrow> ''None'' | Some True \<Rightarrow> ''True'' | Some False \<Rightarrow> ''False'')"

text \<open>
  \<open>_evaluate_expression\<close>: the check of the parentheses, and the loop that replaces the
  first parenthesised part by the text of its value until none is found. The parameter
  \<open>slicer\<close> is only passed on and is left out.
\<close>

function evaluate_expression ::
    "'f builtins \<Rightarrow> (string \<Rightarrow> py_error + jvalue) \<Rightarrow> string \<Rightarrow> py_error + bool option"
  and paren_loop ::
    "'f builtins \<Rightarrow> (string \<Rightarrow> py_error + jvalue) \<Rightarrow> string \<Rightarrow> py_error + bool option" where
  "evaluate_expression B get_value condition =
     (if CHR ''('' \<in> set condition then
        (if count_list condition (CHR ''('') \<noteq> count_list condition (CHR '')'')
         then Inl ValueError
         else paren_loop B get_value condition)
      else if CHR '')'' \<in> set condition then Inl ValueError
      else evaluate_flat B get_value condition)"
| "paren_loop B get_value condition =
     (case find_first_parenthesis_set condition of
        None \<Rightarrow> evaluate_flat B get_value condition
      | Some (start_idx, end_idx) \<Rightarrow>
          (case evaluate_expression B get_value
                  (take (end_idx - Suc start_idx) (drop (Suc start_idx) condition)) of
             Inl e \<Rightarrow> Inl e
           | Inr inner_result \<Rightarrow>
               paren_loop B get_value
                 (take start_idx condition @ str_result inner_result
                    @ drop (Suc end_idx) condition)))"
  by pat_completeness auto
termination
proof -
  have props: "a < b \<and> b < length s \<and> s ! a = CHR ''(''"
    if "find_loop s idx depth r st = Some (a, b)"
      and "1 \<le> depth \<longrightarrow> st < idx \<and> s ! st = CHR ''(''"
    for s idx depth r st a b
    using that
  proof (induction n \<equiv> "length s - idx" arbitrary: idx depth r st rule: less_induct)
    case less
    show ?case
    proof (cases "length s \<le> idx")
      case True
      with less.prems(1) show ?thesis by (simp add: find_loop.simps [of s idx])
    next
      case False
      then have lt: "idx < length s" by simp
      define ch where "ch = s ! idx"
      define in_re where "in_re = (if ch = CHR ''/'' then
                          (if r then False
                           else if 2 \<le> idx \<and> (take 2 (drop (idx - 2) s) = ''=~''
                                               \<or> take 2 (drop (idx - 2) s) = ''!~'')
                                then True else r)
                        else r)"
      have unf: "find_loop s idx depth r st =
           (if in_re then find_loop s (Suc idx) depth in_re st
              else if ch = CHR ''('' then
                find_loop s (Suc idx) (depth + 1) in_re (if depth = 0 then idx else st)
              else if ch = CHR '')'' then
                (if depth - 1 = 0 then Some (st, idx)
                 else find_loop s (Suc idx) (depth - 1) in_re st)
              else find_loop s (Suc idx) depth in_re st)"
        using False by (subst find_loop.simps) (simp add: Let_def ch_def in_re_def)
      have dec: "length s - Suc idx < length s - idx" using lt by simp
      note IH = less.hyps [OF dec]
      have inv: "1 \<le> depth \<longrightarrow> st < idx \<and> s ! st = CHR ''(''" by (rule less.prems(2))
      show ?thesis
      proof (cases in_re)
        case True
        with unf less.prems(1) have "find_loop s (Suc idx) depth in_re st = Some (a, b)" by simp
        moreover have "1 \<le> depth \<longrightarrow> st < Suc idx \<and> s ! st = CHR ''(''" using inv by auto
        ultimately show ?thesis by (rule IH)
      next
        case nre: False
        show ?thesis
        proof (cases "ch = CHR ''(''")
          case True
          with unf nre less.prems(1)
          have "find_loop s (Suc idx) (depth + 1) in_re (if depth = 0 then idx else st) = Some (a, b)"
            by simp
          moreover have "1 \<le> depth + 1 \<longrightarrow> (if depth = 0 then idx else st) < Suc idx
                           \<and> s ! (if depth = 0 then idx else st) = CHR ''(''"
            using inv True ch_def by auto
          ultimately show ?thesis by (rule IH)
        next
          case nop: False
          show ?thesis
          proof (cases "ch = CHR '')''")
            case True
            show ?thesis
            proof (cases "depth - 1 = 0")
              case d1: True
              with unf nre nop True less.prems(1) have ab: "a = st" "b = idx" by simp_all
              from d1 have "1 \<le> depth" by simp
              with inv have "st < idx" "s ! st = CHR ''(''" by simp_all
              with ab lt show ?thesis by simp
            next
              case d2: False
              with unf nre nop True less.prems(1)
              have "find_loop s (Suc idx) (depth - 1) in_re st = Some (a, b)" by simp
              moreover have "1 \<le> depth - 1 \<longrightarrow> st < Suc idx \<and> s ! st = CHR ''(''"
                using inv by auto
              ultimately show ?thesis by (rule IH)
            qed
          next
            case False
            with unf nre nop less.prems(1)
            have "find_loop s (Suc idx) depth in_re st = Some (a, b)" by simp
            moreover have "1 \<le> depth \<longrightarrow> st < Suc idx \<and> s ! st = CHR ''(''" using inv by auto
            ultimately show ?thesis by (rule IH)
          qed
        qed
      qed
    qed
  qed
  have first: "a < b \<and> b < length s \<and> s ! a = CHR ''(''"
    if "find_first_parenthesis_set s = Some (a, b)" for s a b
  proof -
    from that have f: "find_loop s 0 0 False 0 = Some (a, b)"
      by (simp add: find_first_parenthesis_set_def)
    have i: "(1::int) \<le> 0 \<longrightarrow> (0::nat) < 0 \<and> s ! 0 = CHR ''(''" by simp
    from f i show ?thesis by (rule props)
  qed
  have fewer:
    "length (filter (\<lambda>x. x = CHR ''('') (take (b - Suc a) (drop (Suc a) s)))
       < length (filter (\<lambda>x. x = CHR ''('') s)
     \<and> length (filter (\<lambda>x. x = CHR ''('') (take a s))
         + length (filter (\<lambda>x. x = CHR ''('') (drop (Suc b) s))
       < length (filter (\<lambda>x. x = CHR ''('') s)"
    if "a < b" "b < length s" "s ! a = CHR ''(''" for a b s
  proof -
    have a: "a < length s" using that by simp
    have s1: "s = take a s @ s ! a # drop (Suc a) s"
      using a by (simp add: id_take_nth_drop)
    have s2: "drop (Suc a) s = take (b - Suc a) (drop (Suc a) s) @ drop b s"
      using that by (metis append_take_drop_id drop_drop Suc_leI le_add_diff_inverse2)
    have s3: "drop b s = s ! b # drop (Suc b) s"
      using that(2) by (simp add: Cons_nth_drop_Suc)
    have "length (filter (\<lambda>x. x = CHR ''('') s)
        = length (filter (\<lambda>x. x = CHR ''('') (take a s)) + 1
          + length (filter (\<lambda>x. x = CHR ''('') (take (b - Suc a) (drop (Suc a) s)))
          + length (filter (\<lambda>x. x = CHR ''('') [s ! b])
          + length (filter (\<lambda>x. x = CHR ''('') (drop (Suc b) s))"
      by (subst s1, subst s2, subst s3) (simp add: that(3))
    then show ?thesis by simp
  qed
  have none: "filter (\<lambda>x. x = CHR ''('') (str_result r) = []" for r
    by (cases r) (auto simp: str_result_def split: bool.splits)
  show ?thesis
  proof (relation "measure (\<lambda>x. case x of
             Inl (B, g, c) \<Rightarrow> 2 * length (filter (\<lambda>x. x = CHR ''('') c) + 1
           | Inr (B, g, c) \<Rightarrow> 2 * length (filter (\<lambda>x. x = CHR ''('') c))", goal_cases)
    case 1
    show ?case by simp
  next
    case (2 B get_value condition)
    show ?case by simp
  next
    case (3 B get_value condition x2 x y)
    then have "find_first_parenthesis_set condition = Some (x, y)" by simp
    from first [OF this] fewer [of x y condition]
    show ?case by simp
  next
    case (4 B get_value condition x2 x y inner_result)
    then have "find_first_parenthesis_set condition = Some (x, y)" by simp
    from first [OF this] fewer [of x y condition]
    show ?case by (simp add: none)
  qed
qed

declare evaluate_expression.simps [simp del] paren_loop.simps [simp del]

text \<open>
  \<open>evaluate_printer_condition\<close>: an empty or blank condition is false; otherwise the
  defaults and the printer data are merged and the expression is evaluated.
\<close>

definition evaluate_printer_condition ::
  "'f builtins \<Rightarrow> string \<Rightarrow> jvalue pydict \<Rightarrow> string \<Rightarrow> jvalue pydict option
     \<Rightarrow> py_error + bool option" where
  "evaluate_printer_condition B condition printer_data slicer_name defaults =
     (if condition = [] \<or> strip condition = [] then Inr (Some False)
      else
        (let merged_data =
               dict_update (case defaults of None \<Rightarrow> [] | Some d \<Rightarrow> dict_update [] d)
                 printer_data
         in evaluate_expression B (get_value_from_config merged_data slicer_name) condition))"

section \<open>Examples used below\<close>

definition ex_unsorted :: StoredProfile where
  "ex_unsorted = \<lparr>slicer = ''bambustudio'', profile_type = ''filament'', name = ''Bambu ABS'',
     vendor = ''BBL'', first_seen = ''2.0'', last_seen = ''1.0'', filament_id = None,
     setting_id = None, renamed_from = None,
     settings = [(''nozzle_temperature'', [(''2.0'', JInt 280), (''1.0'', JInt 270)])]\<rparr>"

definition ex_sorted :: StoredProfile where
  "ex_sorted = \<lparr>slicer = ''bambustudio'', profile_type = ''filament'', name = ''Bambu ABS'',
     vendor = ''BBL'', first_seen = ''01.00.00'', last_seen = ''02.00.00'', filament_id = None,
     setting_id = None, renamed_from = None,
     settings = [(''nozzle_temperature'', [(''01.00.00'', JInt 270), (''02.00.00'', JInt 280)])]\<rparr>"

definition ex_bool_int :: StoredProfile where
  "ex_bool_int = \<lparr>slicer = ''orcaslicer'', profile_type = ''machine'', name = ''Generic'',
     vendor = ''Custom'', first_seen = ''1.0'', last_seen = ''2.0'', filament_id = None,
     setting_id = None, renamed_from = None,
     settings = [(''auxiliary_fan'', [(''1.0'', JBool True), (''2.0'', JInt 1)])]\<rparr>"

text \<open>
  A resource directory after storing two files with the same bytes and different
  extensions: one hash, one manifest entry (the later file's), two files.
\<close>

definition ex_digest :: "string \<Rightarrow> string" where
  "ex_digest content = ''5e1f''"

definition ex_resources :: ResourceStore where
  "ex_resources =
     fst (store ex_digest
            (fst (store ex_digest \<lparr>manifest = [], res_files = [], manifest_file = None\<rparr>
                    ''plate.svg'' ''logo''))
            ''plate.png'' ''logo'')"

definition ex_resources_kept :: ResourceStore where
  "ex_resources_kept =
     \<lparr>manifest = [(''aa11'', \<lparr>e_filename = ''bed.stl'', e_size = 3, e_type = ''stl''\<rparr>),
                  (''bb22'', \<lparr>e_filename = ''bed.png'', e_size = 5, e_type = ''png''\<rparr>)],
      res_files = [''aa11.stl'', ''bb22.png''], manifest_file = None\<rparr>"

text \<open>Profiles and stores for the ingestion examples (scenarios 1 to 3 of the specification).\<close>

definition ex_abs :: ParsedProfile where
  "ex_abs = \<lparr>p_slicer = BAMBUSTUDIO, p_profile_type = FILAMENT, p_name = ''Bambu ABS'',
     p_vendor = ''BBL'',
     p_settings = [(''nozzle_temperature'', JInt 270), (''filament_type'', JStr ''ABS'')],
     p_filament_id = None, p_setting_id = None\<rparr>"

definition ex_abs_pro :: ParsedProfile where
  "ex_abs_pro = \<lparr>p_slicer = BAMBUSTUDIO, p_profile_type = FILAMENT, p_name = ''Bambu ABS Pro'',
     p_vendor = ''BBL'',
     p_settings = [(''renamed_from'', JStr ''Bambu ABS''), (''nozzle_temperature'', JInt 285),
                   (''filament_type'', JStr ''ABS'')],
     p_filament_id = None, p_setting_id = None\<rparr>"

definition ex_store1 :: ProfileStore where
  "ex_store1 = fst (ingest_profiles empty_store BAMBUSTUDIO ''01.00.00'' [ex_abs])"

definition ex_abs_stored :: StoredProfile where
  "ex_abs_stored = \<lparr>slicer = ''bambustudio'', profile_type = ''filament'', name = ''Bambu ABS'',
     vendor = ''BBL'', first_seen = ''01.00.00'', last_seen = ''01.00.00'', filament_id = None,
     setting_id = None, renamed_from = None,
     settings = [(''nozzle_temperature'', [(''01.00.00'', JInt 270)]),
                 (''filament_type'', [(''01.00.00'', JStr ''ABS'')])]\<rparr>"

definition ex_custom :: ParsedProfile where
  "ex_custom = \<lparr>p_slicer = ORCASLICER, p_profile_type = MACHINE, p_name = ''My Printer'',
     p_vendor = ''_custom'', p_settings = [(''nozzle_diameter'', JStr ''0.4'')],
     p_filament_id = None, p_setting_id = None\<rparr>"

definition ex_store_custom :: ProfileStore where
  "ex_store_custom = fst (ingest_profiles empty_store ORCASLICER ''1.0'' [ex_custom])"

definition ex_pla :: ParsedProfile where
  "ex_pla = \<lparr>p_slicer = BAMBUSTUDIO, p_profile_type = FILAMENT, p_name = ''Bambu PLA'',
     p_vendor = ''BBL'',
     p_settings = [(''nozzle_temperature'', JInt 220), (''filament_type'', JStr ''PLA'')],
     p_filament_id = None, p_setting_id = None\<rparr>"

text \<open>A Cura machine definition whose \<open>manufacturer\<close> is the empty string.\<close>

definition ex_mini :: ParsedProfile where
  "ex_mini = \<lparr>p_slicer = CURA, p_profile_type = MACHINE_MODEL, p_name = ''Mini'',
     p_vendor = [], p_settings = [(''name'', JStr ''Mini''), (''manufacturer'', JStr [])],
     p_filament_id = None, p_setting_id = None\<rparr>"

definition ex_store_mini :: ProfileStore where
  "ex_store_mini = fst (ingest_profiles empty_store CURA ''5.0'' [ex_mini])"

text \<open>
  Two stores written out of version order: the release 2.0 and then the older release
  1.0; the release 2.0 and then a nightly build, stored as \<open>nightly-2.1\<close>.
\<close>

definition ex_abs_280 :: ParsedProfile where
  "ex_abs_280 = ex_abs\<lparr>p_settings := [(''nozzle_temperature'', JInt 280), (''filament_type'', JStr ''ABS'')]\<rparr>"

definition ex_abs_290 :: ParsedProfile where
  "ex_abs_290 = ex_abs\<lparr>p_settings := [(''nozzle_temperature'', JInt 290), (''filament_type'', JStr ''ABS'')]\<rparr>"

definition ex_store_out_of_order :: ProfileStore where
  "ex_store_out_of_order =
     fst (ingest_profiles (fst (ingest_profiles empty_store BAMBUSTUDIO ''2.0'' [ex_abs_280]))
            BAMBUSTUDIO ''1.0'' [ex_abs])"

definition ex_store_nightly :: ProfileStore where
  "ex_store_nightly =
     fst (ingest_profiles (fst (ingest_profiles empty_store BAMBUSTUDIO ''2.0'' [ex_abs_280]))
            BAMBUSTUDIO ''nightly-2.1'' [ex_abs_290])"

text \<open>
  A stand-in for the library functions in the examples, which use no regular expression
  and no number with a fraction: floats are the integers, \<open>float\<close> of a string is its
  integer value or \<open>ValueError\<close>, and \<open>float\<close> of a list, a dict or \<open>None\<close> is
  \<open>TypeError\<close>.
\<close>

definition ex_builtins :: "int builtins" where
  "ex_builtins =
     \<lparr>re_match = (\<lambda>pattern s. None),
      py_float = (\<lambda>v. case v of
                         JInt n \<Rightarrow> Inr n
                       | JBool b \<Rightarrow> Inr (if b then 1 else 0)
                       | JStr s \<Rightarrow> (case py_int s of Some n \<Rightarrow> Inr n | None \<Rightarrow> Inl ValueError)
                       | _ \<Rightarrow> Inl TypeError),
      float_le = (\<lambda>a b. a \<le> b),
      float_lt = (\<lambda>a b. a < b)\<rparr>"


section \<open>The version ordering\<close>

text \<open>
  Claim C4, as the code has it. \<open>version_key\<close> maps a version string to a tuple, and
  tuples are totally ordered, so of two version strings exactly one has the smaller key,
  or the keys are equal; \<open>sort_versions\<close> returns a permutation of its input, sorted by
  key, and it is stable: the strings of one key keep their input order. Equal keys do not
  make the strings equal, so this is a total preorder on strings.
\<close>

theorem sort_versions_total_preorder:
  "(version_key a < version_key b \<or> version_key a = version_key b \<or> version_key b < version_key a)
   \<and> \<not> (version_key a < version_key b \<and> version_key a = version_key b)
   \<and> \<not> (version_key a < version_key b \<and> version_key b < version_key a)
   \<and> \<not> (version_key a = version_key b \<and> version_key b < version_key a)
   \<and> sorted (map version_key (sort_versions vs))
   \<and> mset (sort_versions vs) = mset vs
   \<and> filter (\<lambda>v. version_key v = k) (sort_versions vs) = filter (\<lambda>v. version_key v = k) vs"
proof -
  have tri: "version_key a < version_key b \<or> version_key a = version_key b \<or> version_key b < version_key a"
    by (rule less_linear)
  have srt: "sorted (map version_key (sort_versions vs))"
    unfolding sort_versions_def by (rule sorted_sort_key)
  have perm: "mset (sort_versions vs) = mset vs"
    unfolding sort_versions_def by simp
  have stab: "filter (\<lambda>v. version_key v = k) (sort_versions vs) = filter (\<lambda>v. version_key v = k) vs"
    unfolding sort_versions_def by (rule sort_key_stable)
  from tri srt perm stab show ?thesis by auto
qed

text \<open>
  The claim as stated fails: \<open>1.0\<close> and \<open>01.0\<close> are two normalized version strings with
  the key \<open>(1, 0)\<close>; neither key is smaller and the strings differ.
\<close>

theorem version_order_not_antisymmetric:
  "\<not> version_key ''1.0'' < version_key ''01.0'' \<and> ''1.0'' \<noteq> ''01.0''
   \<and> \<not> version_key ''01.0'' < version_key ''1.0''
   \<and> normalize_version ''1.0'' = ''1.0'' \<and> normalize_version ''01.0'' = ''01.0''"
  by code_simp

section \<open>Reading a stored profile at a version\<close>

lemma walk_versions_gen:
  "foldl (\<lambda>(found, value) (ver, val). if version_key ver \<le> t then (True, val) else (found, value)) s h =
   (if filter (\<lambda>e. version_key (fst e) \<le> t) h = [] then s
    else (True, snd (last (filter (\<lambda>e. version_key (fst e) \<le> t) h))))"
proof (induction h rule: rev_induct)
  case Nil
  show ?case by simp
next
  case (snoc x xs)
  obtain ver val where x: "x = (ver, val)" by (cases x)
  obtain f v where s: "foldl (\<lambda>(found, value) (ver, val). if version_key ver \<le> t then (True, val) else (found, value)) s xs = (f, v)"
    by fastforce
  show ?case
  proof (cases "version_key ver \<le> t")
    case True
    then show ?thesis using s x by simp
  next
    case False
    then show ?thesis using snoc x by simp
  qed
qed

lemma walk_versions_filter:
  "walk_versions t h =
   (if filter (\<lambda>e. version_key (fst e) \<le> t) h = [] then (False, JNull)
    else (True, snd (last (filter (\<lambda>e. version_key (fst e) \<le> t) h))))"
  unfolding walk_versions_def by (rule walk_versions_gen)

lemma sorted_map_le_last:
  "sorted (map f xs) \<Longrightarrow> x \<in> set xs \<Longrightarrow> f x \<le> f (last xs)"
  by (induction xs) (auto split: if_splits)

lemma sorted_map_filter: "sorted (map f xs) \<Longrightarrow> sorted (map f (filter P xs))"
  by (induction xs) auto

lemma gav_last:
  "get_at_version sp k Q =
     (case map_of (settings sp) k of
        None \<Rightarrow> JNull
      | Some h \<Rightarrow> if filter (\<lambda>e. version_key (fst e) \<le> version_key Q) h = [] then JNull
                 else snd (last (filter (\<lambda>e. version_key (fst e) \<le> version_key Q) h)))"
  by (simp add: get_at_version_def walk_versions_filter split: option.splits)

lemma gav_sorted:
  assumes h: "map_of (settings sp) k = Some h"
    and srt: "sorted (map (\<lambda>e. version_key (fst e)) h)"
    and ex: "\<exists>e\<in>set h. version_key (fst e) \<le> version_key Q"
  shows "\<exists>V. (V, get_at_version sp k Q) \<in> set h \<and> version_key V \<le> version_key Q \<and>
             (\<forall>e\<in>set h. version_key (fst e) \<le> version_key Q \<longrightarrow> version_key (fst e) \<le> version_key V)"
proof -
  let ?P = "\<lambda>e. version_key (fst e) \<le> version_key Q"
  let ?es = "filter ?P h"
  from ex have ne: "?es \<noteq> []" by (auto simp: filter_empty_conv)
  then have lst: "last ?es \<in> set ?es" by (rule last_in_set)
  have g: "get_at_version sp k Q = snd (last ?es)" using h ne by (simp add: gav_last)
  have s2: "sorted (map (\<lambda>e. version_key (fst e)) ?es)" using srt by (rule sorted_map_filter)
  have mx: "\<forall>e\<in>set h. ?P e \<longrightarrow> version_key (fst e) \<le> version_key (fst (last ?es))"
  proof (intro ballI impI)
    fix e assume "e \<in> set h" "?P e"
    then have "e \<in> set ?es" by simp
    with s2 show "version_key (fst e) \<le> version_key (fst (last ?es))"
      by (rule sorted_map_le_last)
  qed
  show ?thesis
  proof (intro exI[of _ "fst (last ?es)"] conjI)
    show "(fst (last ?es), get_at_version sp k Q) \<in> set h" using lst g by auto
    show "version_key (fst (last ?es)) \<le> version_key Q" using lst by auto
    show "\<forall>e\<in>set h. ?P e \<longrightarrow> version_key (fst e) \<le> version_key (fst (last ?es))" by (rule mx)
  qed
qed

text \<open>
  What \<open>get_at_version\<close> computes. It walks the history of the key in its stored order
  and returns the value of the last entry whose version is at most the requested one:
  \<open>None\<close> when the key is absent or no entry is in range. Only when the history is
  stored in ascending version order does that entry carry the greatest recorded version
  that is at most the requested one.
\<close>

lemma get_at_version_last_in_range:
  "(map_of (settings sp) k = None \<longrightarrow> get_at_version sp k Q = JNull)
   \<and> (\<forall>h. map_of (settings sp) k = Some h \<longrightarrow>
        get_at_version sp k Q =
          (if filter (\<lambda>e. version_key (fst e) \<le> version_key Q) h = [] then JNull
           else snd (last (filter (\<lambda>e. version_key (fst e) \<le> version_key Q) h)))
        \<and> (sorted (map (\<lambda>e. version_key (fst e)) h)
             \<and> (\<exists>e\<in>set h. version_key (fst e) \<le> version_key Q) \<longrightarrow>
            (\<exists>V. (V, get_at_version sp k Q) \<in> set h \<and> version_key V \<le> version_key Q \<and>
                 (\<forall>e\<in>set h. version_key (fst e) \<le> version_key Q
                    \<longrightarrow> version_key (fst e) \<le> version_key V))))"
proof (intro conjI allI impI)
  assume "map_of (settings sp) k = None"
  then show "get_at_version sp k Q = JNull" by (simp add: gav_last)
next
  fix h assume "map_of (settings sp) k = Some h"
  then show "get_at_version sp k Q =
          (if filter (\<lambda>e. version_key (fst e) \<le> version_key Q) h = [] then JNull
           else snd (last (filter (\<lambda>e. version_key (fst e) \<le> version_key Q) h)))"
    by (simp add: gav_last)
next
  fix h
  assume h: "map_of (settings sp) k = Some h"
    and "sorted (map (\<lambda>e. version_key (fst e)) h)
             \<and> (\<exists>e\<in>set h. version_key (fst e) \<le> version_key Q)"
  then show "\<exists>V. (V, get_at_version sp k Q) \<in> set h \<and> version_key V \<le> version_key Q \<and>
                 (\<forall>e\<in>set h. version_key (fst e) \<le> version_key Q
                    \<longrightarrow> version_key (fst e) \<le> version_key V)"
    using gav_sorted [of sp k h Q] by blast
qed

lemma get_at_version_last_in_range_example:
  "map_of (settings ex_sorted) ''nozzle_temperature''
     = Some [(''01.00.00'', JInt 270), (''02.00.00'', JInt 280)]
   \<and> sorted (map (\<lambda>e. version_key (fst e)) [(''01.00.00'', JInt 270), (''02.00.00'', JInt 280)])
   \<and> version_key ''01.00.00'' \<le> version_key ''01.05.00''
   \<and> get_at_version ex_sorted ''nozzle_temperature'' ''01.05.00'' = JInt 270
   \<and> (\<exists>V. (V, get_at_version ex_sorted ''nozzle_temperature'' ''01.05.00'')
            \<in> set [(''01.00.00'', JInt 270), (''02.00.00'', JInt 280)]
          \<and> version_key V \<le> version_key ''01.05.00'')"
proof -
  let ?h = "[(''01.00.00'', JInt 270), (''02.00.00'', JInt 280)]"
  have m: "map_of (settings ex_sorted) ''nozzle_temperature'' = Some ?h"
    by (simp add: ex_sorted_def)
  have s: "sorted (map (\<lambda>e. version_key (fst e)) ?h)" by code_simp
  have r: "version_key ''01.00.00'' \<le> version_key ''01.05.00''" by code_simp
  have e: "\<exists>e\<in>set ?h. version_key (fst e) \<le> version_key ''01.05.00''" using r by simp
  have v: "get_at_version ex_sorted ''nozzle_temperature'' ''01.05.00'' = JInt 270" by code_simp
  from get_at_version_last_in_range [of ex_sorted "''nozzle_temperature''" "''01.05.00''"] m s e
  have "\<exists>V. (V, get_at_version ex_sorted ''nozzle_temperature'' ''01.05.00'') \<in> set ?h
          \<and> version_key V \<le> version_key ''01.05.00''
          \<and> (\<forall>e\<in>set ?h. version_key (fst e) \<le> version_key ''01.05.00''
                \<longrightarrow> version_key (fst e) \<le> version_key V)"
    by blast
  then have x: "\<exists>V. (V, get_at_version ex_sorted ''nozzle_temperature'' ''01.05.00'') \<in> set ?h
          \<and> version_key V \<le> version_key ''01.05.00''" by blast
  from m s r v x show ?thesis by blast
qed

text \<open>
  Claim C2: \<open>get_at_version(k, Q)\<close> returns the value recorded at the greatest version
  \<open>V \<le> Q\<close> under the version ordering, which is also what the docstring of the method
  promises (the value from the latest version that is at most the requested one). The
  code does not: it returns the in-range entry that was written last. Ingesting version
  2.0 (280 degrees) and then version 1.0 (270 degrees) stores the history \<open>2.0, 1.0\<close>,
  and at 2.0 the method returns 270, not the 280 recorded at 2.0. Likewise a nightly
  build, whose version \<open>nightly-2.1\<close> has the key \<open>(0, 2, 1)\<close> below that of every
  release, ingested after release 2.0: at 2.0 the method returns the nightly's 290.
\<close>

theorem get_at_version_not_greatest:
  "map_option (\<lambda>sp. map_of (settings sp) ''nozzle_temperature'')
       (get ex_store_out_of_order BAMBUSTUDIO ''filament'' ''BBL'' ''Bambu ABS'')
     = Some (Some [(''2.0'', JInt 280), (''1.0'', JInt 270)])
   \<and> version_key ''2.0'' \<le> version_key ''2.0''
   \<and> version_key ''1.0'' < version_key ''2.0''
   \<and> map_option (\<lambda>sp. get_at_version sp ''nozzle_temperature'' ''2.0'')
       (get ex_store_out_of_order BAMBUSTUDIO ''filament'' ''BBL'' ''Bambu ABS'')
     = Some (JInt 270)
   \<and> map_option (\<lambda>sp. map_of (settings sp) ''nozzle_temperature'')
       (get ex_store_nightly BAMBUSTUDIO ''filament'' ''BBL'' ''Bambu ABS'')
     = Some (Some [(''2.0'', JInt 280), (''nightly-2.1'', JInt 290)])
   \<and> version_key ''nightly-2.1'' = [0, 2, 1]
   \<and> version_key ''nightly-2.1'' < version_key ''2.0''
   \<and> map_option (\<lambda>sp. get_at_version sp ''nozzle_temperature'' ''2.0'')
       (get ex_store_nightly BAMBUSTUDIO ''filament'' ''BBL'' ''Bambu ABS'')
     = Some (JInt 290)
   \<and> map_of (settings ex_unsorted) ''nozzle_temperature''
     = Some [(''2.0'', JInt 280), (''1.0'', JInt 270)]
   \<and> get_at_version ex_unsorted ''nozzle_temperature'' ''2.0'' = JInt 270"
  by code_simp

section \<open>Dictionaries built in a loop\<close>

lemma dict_set_append: "k \<notin> fst ` set d \<Longrightarrow> dict_set k v d = d @ [(k, v)]"
  by (induction d) auto

lemma map_of_dict_set: "map_of (dict_set k v d) k' = (if k' = k then Some v else map_of d k')"
  by (induction d) auto

lemma map_of_dict_del: "map_of (dict_del k d) k' = (if k' = k then None else map_of d k')"
  unfolding dict_del_def by (induction d) auto

lemma foldl_dict_set_distinct:
  "distinct (map g xs) \<Longrightarrow> \<forall>x\<in>set xs. g x \<notin> fst ` set acc \<Longrightarrow>
   foldl (\<lambda>a x. if P x then dict_set (g x) (f x) a else a) acc xs
     = acc @ map (\<lambda>x. (g x, f x)) (filter P xs)"
proof (induction xs arbitrary: acc)
  case Nil
  show ?case by simp
next
  case (Cons x xs)
  have fresh: "g x \<notin> fst ` set acc" using Cons.prems(2) by simp
  have dx: "distinct (map g xs)" using Cons.prems(1) by simp
  have neq: "\<forall>y\<in>set xs. g y \<noteq> g x"
  proof
    fix y assume "y \<in> set xs"
    then have "g y \<in> set (map g xs)" by simp
    moreover have "g x \<notin> set (map g xs)" using Cons.prems(1) by simp
    ultimately show "g y \<noteq> g x" by metis
  qed
  have old: "\<forall>y\<in>set xs. g y \<notin> fst ` set acc" using Cons.prems(2) by simp
  show ?case
  proof (cases "P x")
    case True
    have d: "dict_set (g x) (f x) acc = acc @ [(g x, f x)]"
      using fresh by (rule dict_set_append)
    have "\<forall>y\<in>set xs. g y \<notin> fst ` set (acc @ [(g x, f x)])"
      using neq old by auto
    with Cons.IH [of "acc @ [(g x, f x)]"] dx True d show ?thesis by simp
  next
    case False
    with Cons.IH [of acc] dx old show ?thesis by simp
  qed
qed

section \<open>Settings changed between two versions\<close>

text \<open>
  Claim C5, as the code has it. For a profile whose setting keys are distinct (it is a
  dict), \<open>changed_settings\<close> lists, in the order of the settings, exactly the keys whose
  values at the two versions differ under Python's \<open>!=\<close>, each with both values. Under
  that comparison the order of the keys of a mapping is not significant, the order of a
  list is, and \<open>True\<close> equals \<open>1\<close>.
\<close>

theorem changed_settings_python_inequality:
  assumes "distinct (map fst (settings sp))"
  shows "changed_settings sp v1 v2 =
           map (\<lambda>k. (k, (get_at_version sp k v1, get_at_version sp k v2)))
             (filter (\<lambda>k. \<not> py_eq (get_at_version sp k v1) (get_at_version sp k v2))
                (map fst (settings sp)))
         \<and> (a \<noteq> b \<longrightarrow> py_eq (JDict [(a, JInt x), (b, JStr y)]) (JDict [(b, JStr y), (a, JInt x)]))
         \<and> (x \<noteq> z \<longrightarrow> \<not> py_eq (JList [JInt x, JInt z]) (JList [JInt z, JInt x]))
         \<and> py_eq (JBool True) (JInt 1)"
proof -
  have "distinct (map (\<lambda>k. k) (map fst (settings sp)))" using assms by simp
  then have "foldl (\<lambda>changes key.
              if \<not> py_eq (get_at_version sp key v1) (get_at_version sp key v2)
              then dict_set key (get_at_version sp key v1, get_at_version sp key v2) changes
              else changes) [] (map fst (settings sp))
        = [] @ map (\<lambda>k. (k, (get_at_version sp k v1, get_at_version sp k v2)))
             (filter (\<lambda>k. \<not> py_eq (get_at_version sp k v1) (get_at_version sp k v2))
                (map fst (settings sp)))"
    by (intro foldl_dict_set_distinct) simp_all
  then have main: "changed_settings sp v1 v2 =
           map (\<lambda>k. (k, (get_at_version sp k v1, get_at_version sp k v2)))
             (filter (\<lambda>k. \<not> py_eq (get_at_version sp k v1) (get_at_version sp k v2))
                (map fst (settings sp)))"
    by (simp add: changed_settings_def Let_def)
  show ?thesis using main by auto
qed

theorem changed_settings_python_inequality_witness:
  "distinct (map fst (settings ex_sorted))
   \<and> changed_settings ex_sorted ''01.00.00'' ''02.00.00''
       = [(''nozzle_temperature'', (JInt 270, JInt 280))]"
proof -
  have d: "distinct (map fst (settings ex_sorted))" by (simp add: ex_sorted_def)
  have k: "map fst (settings ex_sorted) = [''nozzle_temperature'']" by (simp add: ex_sorted_def)
  have g1: "get_at_version ex_sorted ''nozzle_temperature'' ''01.00.00'' = JInt 270" by code_simp
  have g2: "get_at_version ex_sorted ''nozzle_temperature'' ''02.00.00'' = JInt 280" by code_simp
  from changed_settings_python_inequality [OF d, of "''01.00.00''" "''02.00.00''"]
  have "changed_settings ex_sorted ''01.00.00'' ''02.00.00'' =
           map (\<lambda>k. (k, (get_at_version ex_sorted k ''01.00.00'', get_at_version ex_sorted k ''02.00.00'')))
             (filter (\<lambda>k. \<not> py_eq (get_at_version ex_sorted k ''01.00.00'')
                                    (get_at_version ex_sorted k ''02.00.00''))
                (map fst (settings ex_sorted)))" by blast
  then have "changed_settings ex_sorted ''01.00.00'' ''02.00.00''
       = [(''nozzle_temperature'', (JInt 270, JInt 280))]"
    by (simp add: k g1 g2)
  with d show ?thesis by simp
qed

text \<open>
  The claim as stated fails: the comparison is not the canonical-JSON one. A setting
  recorded as \<open>true\<close> at 1.0 and as \<open>1\<close> at 2.0 has two different canonical texts
  (which is why ingestion recorded the second entry), and \<open>changed_settings\<close> between
  the two versions does not list it.
\<close>

theorem changed_settings_not_canonical_json:
  "get_at_version ex_bool_int ''auxiliary_fan'' ''1.0'' = JBool True
   \<and> get_at_version ex_bool_int ''auxiliary_fan'' ''2.0'' = JInt 1
   \<and> normalize_value (JBool True) = ''true''
   \<and> normalize_value (JInt 1) = ''1''
   \<and> changed_settings ex_bool_int ''1.0'' ''2.0'' = []"
  by code_simp

section \<open>Garbage collection of resources\<close>

lemma gc_step_referenced: "h \<in> R \<Longrightarrow> gc_step R acc h = acc"
  by (simp add: gc_step_def Let_def)

lemma gc_step_removed: "h \<notin> R \<Longrightarrow> snd (gc_step R acc h) = snd acc @ [h]"
  by (simp add: gc_step_def Let_def)

lemma gc_step_manifest:
  "h \<notin> R \<Longrightarrow> manifest (fst (gc_step R acc h)) = dict_del h (manifest (fst acc))"
  by (simp add: gc_step_def Let_def split: option.splits)

lemma gc_step_manifest_file: "manifest_file (fst (gc_step R acc h)) = manifest_file (fst acc)"
  by (simp add: gc_step_def Let_def split: option.splits)

lemma gc_step_files:
  "h \<notin> R \<Longrightarrow> set (res_files (fst (gc_step R acc h))) =
     set (res_files (fst acc)) -
       {f. \<exists>e. map_of (manifest (fst acc)) h = Some e \<and> f = h @ ''.'' @ e_type e}"
  by (auto simp: gc_step_def get_path_def Let_def split: option.splits if_splits)

lemma dict_del_filter: "dict_del h (filter P d) = filter (\<lambda>p. P p \<and> fst p \<noteq> h) d"
  unfolding dict_del_def by (induction d) auto

lemma gc_loop:
  "distinct ks \<Longrightarrow>
   snd (foldl (gc_step R) acc ks) = snd acc @ filter (\<lambda>h. h \<notin> R) ks
   \<and> manifest (fst (foldl (gc_step R) acc ks))
       = filter (\<lambda>p. fst p \<in> R \<or> fst p \<notin> set ks) (manifest (fst acc))
   \<and> manifest_file (fst (foldl (gc_step R) acc ks)) = manifest_file (fst acc)
   \<and> set (res_files (fst (foldl (gc_step R) acc ks)))
       = set (res_files (fst acc)) -
           {f. \<exists>h e. h \<in> set ks \<and> h \<notin> R \<and> map_of (manifest (fst acc)) h = Some e
                      \<and> f = h @ ''.'' @ e_type e}"
proof (induction ks arbitrary: acc)
  case Nil
  show ?case by simp
next
  case (Cons k ks)
  have d: "distinct ks" and nk: "k \<notin> set ks" using Cons.prems by simp_all
  note IH = Cons.IH [OF d, of "gc_step R acc k"]
  show ?case
  proof (cases "k \<in> R")
    case True
    have same: "gc_step R acc k = acc" using True by (rule gc_step_referenced)
    have f1: "filter (\<lambda>p. fst p \<in> R \<or> fst p \<notin> set ks) (manifest (fst acc))
            = filter (\<lambda>p. fst p \<in> R \<or> fst p \<notin> set (k # ks)) (manifest (fst acc))"
      using True by (intro filter_cong) auto
    have f2: "{f. \<exists>h e. h \<in> set ks \<and> h \<notin> R \<and> map_of (manifest (fst acc)) h = Some e \<and> f = h @ ''.'' @ e_type e}
           = {f. \<exists>h e. h \<in> set (k # ks) \<and> h \<notin> R \<and> map_of (manifest (fst acc)) h = Some e \<and> f = h @ ''.'' @ e_type e}"
      using True by auto
    show ?thesis using IH True f1 f2 by (simp add: same)
  next
    case False
    have m: "manifest (fst (gc_step R acc k)) = dict_del k (manifest (fst acc))"
      using False by (rule gc_step_manifest)
    have lk: "\<And>h. h \<in> set ks \<Longrightarrow> map_of (manifest (fst (gc_step R acc k))) h = map_of (manifest (fst acc)) h"
      using nk by (auto simp: m map_of_dict_del)
    have c1: "snd (foldl (gc_step R) acc (k # ks)) = snd acc @ filter (\<lambda>h. h \<notin> R) (k # ks)"
      using IH False by (simp add: gc_step_removed)
    have c2: "manifest (fst (foldl (gc_step R) acc (k # ks)))
       = filter (\<lambda>p. fst p \<in> R \<or> fst p \<notin> set (k # ks)) (manifest (fst acc))"
    proof -
      have "manifest (fst (foldl (gc_step R) acc (k # ks)))
          = filter (\<lambda>p. fst p \<in> R \<or> fst p \<notin> set ks) (dict_del k (manifest (fst acc)))"
        using IH by (simp add: m)
      also have "\<dots> = filter (\<lambda>p. fst p \<in> R \<or> fst p \<notin> set (k # ks)) (manifest (fst acc))"
        unfolding dict_del_def using False by (auto intro: filter_cong)
      finally show ?thesis .
    qed
    have c3: "manifest_file (fst (foldl (gc_step R) acc (k # ks))) = manifest_file (fst acc)"
      using IH by (simp add: gc_step_manifest_file)
    have c4: "set (res_files (fst (foldl (gc_step R) acc (k # ks))))
       = set (res_files (fst acc)) -
           {f. \<exists>h e. h \<in> set (k # ks) \<and> h \<notin> R \<and> map_of (manifest (fst acc)) h = Some e
                      \<and> f = h @ ''.'' @ e_type e}"
    proof -
      have "set (res_files (fst (foldl (gc_step R) acc (k # ks))))
          = set (res_files (fst (gc_step R acc k))) -
              {f. \<exists>h e. h \<in> set ks \<and> h \<notin> R \<and> map_of (manifest (fst (gc_step R acc k))) h = Some e
                      \<and> f = h @ ''.'' @ e_type e}"
        using IH by simp
      also have "{f. \<exists>h e. h \<in> set ks \<and> h \<notin> R \<and> map_of (manifest (fst (gc_step R acc k))) h = Some e
                      \<and> f = h @ ''.'' @ e_type e}
               = {f. \<exists>h e. h \<in> set ks \<and> h \<notin> R \<and> map_of (manifest (fst acc)) h = Some e
                      \<and> f = h @ ''.'' @ e_type e}"
        using lk by auto
      also have "set (res_files (fst (gc_step R acc k))) = set (res_files (fst acc)) -
          {f. \<exists>e. map_of (manifest (fst acc)) k = Some e \<and> f = k @ ''.'' @ e_type e}"
        using False by (rule gc_step_files)
      finally show ?thesis using False by auto
    qed
    from c1 c2 c3 c4 show ?thesis by blast
  qed
qed

lemma no_dot_prefix_eq:
  "CHR ''.'' \<notin> set a \<Longrightarrow> CHR ''.'' \<notin> set b \<Longrightarrow> a @ CHR ''.'' # x = b @ CHR ''.'' # y \<Longrightarrow> a = b"
proof (induction a arbitrary: b)
  case Nil
  then show ?case by (cases b) auto
next
  case (Cons c a)
  then show ?case by (cases b) auto
qed

text \<open>
  Claim C8, as the code has it. \<open>gc\<close> consults the manifest only. For a manifest with
  distinct hashes, none of which contains a dot: the entries whose hash is referenced stay
  as they are, the others are removed and their hashes returned; the files that go are
  exactly the files \<open>{hash}.{type}\<close> named by the removed entries; the file of a
  referenced entry is there afterwards if and only if it was there before; and if every
  resource file in the directory was the file of a manifest entry, then every file that
  remains is the file of an entry whose hash is referenced.
\<close>

theorem gc_removes_unreferenced_entries:
  assumes d: "distinct (map fst (manifest rs))"
    and nd: "\<forall>h\<in>set (map fst (manifest rs)). CHR ''.'' \<notin> set h"
  shows "manifest (fst (gc rs R)) = filter (\<lambda>p. fst p \<in> R) (manifest rs)
    \<and> snd (gc rs R) = filter (\<lambda>h. h \<notin> R) (map fst (manifest rs))
    \<and> set (res_files (fst (gc rs R)))
        = set (res_files rs) -
            {f. \<exists>h e. (h, e) \<in> set (manifest rs) \<and> h \<notin> R \<and> f = h @ ''.'' @ e_type e}
    \<and> (\<forall>p\<in>set (manifest rs). fst p \<in> R \<longrightarrow>
          (fst p @ ''.'' @ e_type (snd p) \<in> set (res_files (fst (gc rs R)))
             \<longleftrightarrow> fst p @ ''.'' @ e_type (snd p) \<in> set (res_files rs)))
    \<and> ((\<forall>f\<in>set (res_files rs). \<exists>p\<in>set (manifest rs). f = fst p @ ''.'' @ e_type (snd p)) \<longrightarrow>
        (\<forall>f\<in>set (res_files (fst (gc rs R))).
            \<exists>p\<in>set (manifest (fst (gc rs R))). fst p \<in> R \<and> f = fst p @ ''.'' @ e_type (snd p)))"
proof -
  let ?r = "foldl (gc_step R) (rs, []) (map fst (manifest rs))"
  let ?gone = "{f. \<exists>h e. (h, e) \<in> set (manifest rs) \<and> h \<notin> R \<and> f = h @ ''.'' @ e_type e}"
  note L = gc_loop [OF d, of R "(rs, [])"]
  have g1: "fst (gc rs R) = (if snd ?r \<noteq> [] then save_manifest (fst ?r) else fst ?r)"
    and g2: "snd (gc rs R) = snd ?r"
    by (simp_all add: gc_def Let_def)
  have mf: "manifest (fst (gc rs R)) = manifest (fst ?r)"
    and rf: "res_files (fst (gc rs R)) = res_files (fst ?r)"
    by (simp_all add: g1 save_manifest_def)
  have c1: "manifest (fst (gc rs R)) = filter (\<lambda>p. fst p \<in> R) (manifest rs)"
  proof -
    have "manifest (fst ?r)
        = filter (\<lambda>p. fst p \<in> R \<or> fst p \<notin> set (map fst (manifest rs))) (manifest rs)"
      using L by simp
    also have "\<dots> = filter (\<lambda>p. fst p \<in> R) (manifest rs)"
      by (intro filter_cong) auto
    finally show ?thesis by (simp add: mf)
  qed
  have c2: "snd (gc rs R) = filter (\<lambda>h. h \<notin> R) (map fst (manifest rs))"
    using L by (simp add: g2)
  have look: "\<And>h e. (map_of (manifest rs) h = Some e) = ((h, e) \<in> set (manifest rs))"
    using d by simp
  have c3: "set (res_files (fst (gc rs R))) = set (res_files rs) - ?gone"
  proof -
    have "set (res_files (fst ?r)) = set (res_files rs) -
           {f. \<exists>h e. h \<in> set (map fst (manifest rs)) \<and> h \<notin> R \<and> map_of (manifest rs) h = Some e
                      \<and> f = h @ ''.'' @ e_type e}"
      using L by simp
    also have "{f. \<exists>h e. h \<in> set (map fst (manifest rs)) \<and> h \<notin> R \<and> map_of (manifest rs) h = Some e
                      \<and> f = h @ ''.'' @ e_type e} = ?gone" (is "?A = _")
    proof (rule set_eqI)
      fix f
      show "f \<in> ?A \<longleftrightarrow> f \<in> ?gone"
      proof
        assume "f \<in> ?A"
        then show "f \<in> ?gone" using look by blast
      next
        assume "f \<in> ?gone"
        then obtain h e where he: "(h, e) \<in> set (manifest rs)" and nr: "h \<notin> R"
          and fe: "f = h @ ''.'' @ e_type e" by blast
        from he have "h \<in> set (map fst (manifest rs))" by force
        moreover from he have "map_of (manifest rs) h = Some e" by (simp add: look)
        ultimately show "f \<in> ?A" using nr fe by blast
      qed
    qed
    finally show ?thesis by (simp add: rf)
  qed
  have c4: "\<forall>p\<in>set (manifest rs). fst p \<in> R \<longrightarrow>
          (fst p @ ''.'' @ e_type (snd p) \<in> set (res_files (fst (gc rs R)))
             \<longleftrightarrow> fst p @ ''.'' @ e_type (snd p) \<in> set (res_files rs))"
  proof (intro ballI impI)
    fix p assume p: "p \<in> set (manifest rs)" and r: "fst p \<in> R"
    have "fst p @ ''.'' @ e_type (snd p) \<notin> ?gone"
    proof
      assume "fst p @ ''.'' @ e_type (snd p) \<in> ?gone"
      then obtain h e where he: "(h, e) \<in> set (manifest rs)" and nr: "h \<notin> R"
        and eq: "fst p @ ''.'' @ e_type (snd p) = h @ ''.'' @ e_type e" by blast
      have "CHR ''.'' \<notin> set (fst p)" using nd p by simp
      moreover have "CHR ''.'' \<notin> set h" using nd he by force
      ultimately have "fst p = h" using eq no_dot_prefix_eq [of "fst p" h "e_type (snd p)" "e_type e"]
        by simp
      with r nr show False by auto
    qed
    then show "fst p @ ''.'' @ e_type (snd p) \<in> set (res_files (fst (gc rs R)))
             \<longleftrightarrow> fst p @ ''.'' @ e_type (snd p) \<in> set (res_files rs)"
      by (simp add: c3)
  qed
  have c5: "(\<forall>f\<in>set (res_files rs). \<exists>p\<in>set (manifest rs). f = fst p @ ''.'' @ e_type (snd p)) \<longrightarrow>
        (\<forall>f\<in>set (res_files (fst (gc rs R))).
            \<exists>p\<in>set (manifest (fst (gc rs R))). fst p \<in> R \<and> f = fst p @ ''.'' @ e_type (snd p))"
  proof (intro impI ballI)
    fix f
    assume all: "\<forall>f\<in>set (res_files rs). \<exists>p\<in>set (manifest rs). f = fst p @ ''.'' @ e_type (snd p)"
      and f: "f \<in> set (res_files (fst (gc rs R)))"
    from f have f0: "f \<in> set (res_files rs)" and ng: "f \<notin> ?gone" by (simp_all add: c3)
    from all f0 obtain p where p: "p \<in> set (manifest rs)" and fp: "f = fst p @ ''.'' @ e_type (snd p)"
      by blast
    have rR: "fst p \<in> R"
    proof (rule ccontr)
      assume nr: "fst p \<notin> R"
      have "(fst p, snd p) \<in> set (manifest rs)" using p by simp
      with nr fp have "f \<in> ?gone" by blast
      with ng show False by blast
    qed
    have "p \<in> set (manifest (fst (gc rs R)))" using p rR by (simp add: c1)
    with rR fp show "\<exists>p\<in>set (manifest (fst (gc rs R))). fst p \<in> R \<and> f = fst p @ ''.'' @ e_type (snd p)"
      by blast
  qed
  from c1 c2 c3 c4 c5 show ?thesis by blast
qed

theorem gc_removes_unreferenced_entries_witness:
  "distinct (map fst (manifest ex_resources_kept))
   \<and> map fst (manifest ex_resources_kept) = [''aa11'', ''bb22'']
   \<and> CHR ''.'' \<notin> set ''aa11'' \<and> CHR ''.'' \<notin> set ''bb22''
   \<and> manifest (fst (gc ex_resources_kept {''aa11''}))
       = [(''aa11'', \<lparr>e_filename = ''bed.stl'', e_size = 3, e_type = ''stl''\<rparr>)]
   \<and> snd (gc ex_resources_kept {''aa11''}) = [''bb22'']
   \<and> set (res_files (fst (gc ex_resources_kept {''aa11''}))) = {''aa11.stl''}"
proof -
  have d: "distinct (map fst (manifest ex_resources_kept))"
    by (simp add: ex_resources_kept_def)
  have nd: "\<forall>h\<in>set (map fst (manifest ex_resources_kept)). CHR ''.'' \<notin> set h"
    by (simp add: ex_resources_kept_def)
  note T = gc_removes_unreferenced_entries [OF d nd, of "{''aa11''}"]
  from T have m: "manifest (fst (gc ex_resources_kept {''aa11''}))
       = [(''aa11'', \<lparr>e_filename = ''bed.stl'', e_size = 3, e_type = ''stl''\<rparr>)]"
    by (simp add: ex_resources_kept_def)
  from T have r: "snd (gc ex_resources_kept {''aa11''}) = [''bb22'']"
    by (simp add: ex_resources_kept_def)
  have f: "set (res_files (fst (gc ex_resources_kept {''aa11''}))) = {''aa11.stl''}"
    by code_simp
  have k: "map fst (manifest ex_resources_kept) = [''aa11'', ''bb22'']"
    by (simp add: ex_resources_kept_def)
  have n1: "CHR ''.'' \<notin> set ''aa11''" and n2: "CHR ''.'' \<notin> set ''bb22''" by simp_all
  from d k n1 n2 m r f show ?thesis by blast
qed

text \<open>
  The claim as stated fails where the directory holds a file that no manifest entry
  names. Storing the same bytes as \<open>plate.svg\<close> and as \<open>plate.png\<close> writes two files
  under one hash and leaves one manifest entry, of type \<open>png\<close>; \<open>gc\<close> with nothing
  referenced removes that entry and its \<open>png\<close> file, and the \<open>svg\<close> file stays.
\<close>

theorem gc_leaves_unlisted_file:
  "res_files ex_resources = [''5e1f.svg'', ''5e1f.png'']
   \<and> map fst (manifest ex_resources) = [''5e1f'']
   \<and> manifest (fst (gc ex_resources {})) = []
   \<and> snd (gc ex_resources {}) = [''5e1f'']
   \<and> res_files (fst (gc ex_resources {})) = [''5e1f.svg'']"
  by code_simp

section \<open>Paths of profile files\<close>

lemma split_on_no_sep: "\<forall>c\<in>set s. \<not> P c \<Longrightarrow> split_on P s = [s]"
  by (induction s) simp_all

lemma path_parts_plain:
  assumes "seg \<noteq> []" and "seg \<noteq> ''.''" and "CHR ''/'' \<notin> set seg"
  shows "path_parts seg = [seg]"
proof -
  from assms(3) have "\<forall>c\<in>set seg. \<not> c = CHR ''/''" by auto
  then have "split_on (\<lambda>c. c = CHR ''/'') seg = [seg]" by (rule split_on_no_sep)
  with assms(1,2) show ?thesis by (simp add: path_parts_def)
qed

lemma path_join_plain:
  assumes "seg \<noteq> []" and "seg \<noteq> ''.''" and "CHR ''/'' \<notin> set seg"
  shows "path_join d seg = (fst d, snd d @ [seg])"
proof -
  from assms(1,3) have "\<not> prefix ''/'' seg" by (cases seg) auto
  with assms show ?thesis by (simp add: path_join_def path_parts_plain)
qed

lemma set_collapse_underscores: "set (collapse_underscores cs) \<subseteq> set cs"
  by (induction cs rule: collapse_underscores.induct) auto

lemma set_strip_chars: "set (strip_chars P s) \<subseteq> set s"
proof -
  have "set (dropWhile P (rev (dropWhile P s))) \<subseteq> set (rev (dropWhile P s))"
    by (meson set_dropWhileD subsetI)
  moreover have "set (dropWhile P s) \<subseteq> set s" by (meson set_dropWhileD subsetI)
  ultimately show ?thesis by (auto simp: strip_chars_def)
qed

lemma sanitize_no_slash: "CHR ''/'' \<notin> set (sanitize nm)"
proof
  assume "CHR ''/'' \<in> set (sanitize nm)"
  then have "CHR ''/'' \<in> set (map (\<lambda>c. if c \<in> set [CHR ''<'', CHR ''>'', CHR '':'', CHR 0x22, CHR ''/'',
                                   CHR 0x5C, CHR ''|'', CHR ''?'', CHR ''*'']
                     then CHR ''_'' else c) nm)"
    unfolding sanitize_def using set_strip_chars set_collapse_underscores by blast
  then show False by (auto split: if_splits)
qed

lemma path_join_file:
  "path_join d (sanitize nm @ ''.json'') = (fst d, snd d @ [sanitize nm @ ''.json''])"
proof -
  have "sanitize nm @ ''.json'' \<noteq> ''.''"
  proof
    assume "sanitize nm @ ''.json'' = ''.''"
    then have "length (sanitize nm @ ''.json'') = length ''.''" by (rule arg_cong)
    then show False by simp
  qed
  then show ?thesis using sanitize_no_slash [of nm] by (intro path_join_plain) simp_all
qed

lemma profile_path_name:
  assumes "profile_path a b c x = profile_path a' b' c' y"
  shows "profile_path a b c x = profile_path a b c y"
proof -
  from assms have "sanitize x @ ''.json'' = sanitize y @ ''.json''"
    by (simp add: profile_path_def path_join_file)
  then show ?thesis by (simp add: profile_path_def)
qed

section \<open>Ingesting into an empty store\<close>

lemma foldl_dict_set_unless:
  "distinct (map g xs) \<Longrightarrow>
   foldl (\<lambda>a x. if Q x then a else dict_set (g x) (f x) a) [] xs
     = map (\<lambda>x. (g x, f x)) (filter (\<lambda>x. \<not> Q x) xs)"
proof -
  assume d: "distinct (map g xs)"
  have e: "(\<lambda>a x. if Q x then a else dict_set (g x) (f x) a)
         = (\<lambda>a x. if \<not> Q x then dict_set (g x) (f x) a else a)"
    by (intro ext) simp
  show ?thesis
    unfolding e using foldl_dict_set_distinct [OF d, of "[]" "\<lambda>x. \<not> Q x" f] by simp
qed

lemma settings_create_stored:
  "distinct (map fst (p_settings p)) \<Longrightarrow>
   settings (create_stored p V)
     = map (\<lambda>kv. (fst kv, [(V, snd kv)]))
         (filter (\<lambda>kv. fst kv \<noteq> ''renamed_from'') (p_settings p))"
  using foldl_dict_set_unless [of fst "p_settings p" "\<lambda>kv. fst kv \<in> set META_KEYS" "\<lambda>kv. [(V, snd kv)]"]
  by (simp add: create_stored_def META_KEYS_def)

lemma evaluate_eq:
  assumes "distinct (map fst (settings sp))"
  shows "evaluate sp V =
     map (\<lambda>x. (fst x, snd (walk_versions (version_key V) (snd x))))
       (filter (\<lambda>x. fst (walk_versions (version_key V) (snd x))) (settings sp))"
proof -
  have e: "(\<lambda>snapshot (key, versions).
              case walk_versions (version_key V) versions of
                (True, value) \<Rightarrow> dict_set key value snapshot
              | (False, _) \<Rightarrow> snapshot)
       = (\<lambda>a x. if fst (walk_versions (version_key V) (snd x))
                 then dict_set (fst x) (snd (walk_versions (version_key V) (snd x))) a else a)"
    by (intro ext) (auto split: prod.splits bool.splits)
  show ?thesis
    unfolding evaluate_def e
    using foldl_dict_set_distinct [OF assms, of "[]"
        "\<lambda>x. fst (walk_versions (version_key V) (snd x))"
        "\<lambda>x. snd (walk_versions (version_key V) (snd x))"]
    by simp
qed

lemma walk_versions_single: "walk_versions (version_key V) [(V, v)] = (True, v)"
  by (simp add: walk_versions_def)

lemma evaluate_create_stored:
  assumes "distinct (map fst (p_settings p))"
  shows "evaluate (create_stored p V) V
           = filter (\<lambda>kv. fst kv \<noteq> ''renamed_from'') (p_settings p)"
proof -
  let ?s = "filter (\<lambda>kv. fst kv \<noteq> ''renamed_from'') (p_settings p)"
  have s: "settings (create_stored p V) = map (\<lambda>kv. (fst kv, [(V, snd kv)])) ?s"
    using assms by (rule settings_create_stored)
  have "distinct (map fst ?s)" using assms by (simp add: distinct_map_filter)
  then have d: "distinct (map fst (settings (create_stored p V)))"
    by (simp add: s comp_def)
  show ?thesis
    unfolding evaluate_eq [OF d] s
    by (simp add: walk_versions_single comp_def filter_map)
qed

lemma map_fst_dict_set_present:
  "k \<in> fst ` set d \<Longrightarrow> map fst (dict_set k v d) = map fst d"
  by (induction d) auto

lemma rewrite_resource_refs_keys:
  "map fst (p_settings (foldl (\<lambda>p key.
              case map_of (p_settings p) key of
                Some (JStr s) \<Rightarrow>
                  (if s \<noteq> [] then
                     (case map_of rm s of
                        Some h \<Rightarrow> p\<lparr>p_settings := dict_set key (JStr (''sha256:'' @ h)) (p_settings p)\<rparr>
                      | None \<Rightarrow> p)
                   else p)
              | _ \<Rightarrow> p) p0 ks)) = map fst (p_settings p0)"
proof (induction ks arbitrary: p0)
  case Nil
  show ?case by simp
next
  case (Cons k ks)
  show ?case
    by (simp add: Cons.IH map_fst_dict_set_present map_of_eq_Some_iff domI
        split: option.splits jvalue.splits)
       (metis domI dom_map_of_conv_image_fst map_fst_dict_set_present)
qed

lemma load_save_same:
  "map_of (files (save st sp))
     (profile_path (slicer sp) (profile_type sp) (vendor sp) (name sp)) = Some sp"
  by (simp add: save_def map_of_dict_set)

lemma files_update_meta: "files (update_meta st sl V) = files st"
  by (simp add: update_meta_def Let_def)

lemma load_empty: "load empty_store a b c d = None"
  by (simp add: load_def empty_store_def)

lemma ingest_one_empty:
  "ingest_one sl V (empty_store, [], [], []) p
     = (save empty_store (create_stored p V), [p_name p], [],
        [profile_key sl (profile_type_value (p_profile_type p)) (p_vendor p) (p_name p)])"
  by (simp add: ingest_one_def load_empty Let_def split: option.splits)

text \<open>
  Claim C1, as the code has it. A profile (after the resource references in it have been
  rewritten) whose setting keys are distinct is ingested at a version into an empty store;
  the profile stored under its coordinates, evaluated at that version, gives the profile's
  settings in their order, without the metadata key \<open>renamed_from\<close>, which the store
  does not keep among the settings.
\<close>

theorem ingest_evaluate_roundtrip:
  assumes "distinct (map fst (p_settings p0))"
  shows "\<exists>sp. get (fst (ingest_profiles empty_store sl V [rewrite_resource_refs rm p0]))
                 (p_slicer (rewrite_resource_refs rm p0))
                 (profile_type_value (p_profile_type (rewrite_resource_refs rm p0)))
                 (p_vendor (rewrite_resource_refs rm p0))
                 (p_name (rewrite_resource_refs rm p0)) = Some sp
             \<and> evaluate sp V
                = filter (\<lambda>kv. fst kv \<noteq> ''renamed_from'')
                    (p_settings (rewrite_resource_refs rm p0))"
proof -
  let ?p = "rewrite_resource_refs rm p0"
  have "map fst (p_settings ?p) = map fst (p_settings p0)"
    unfolding rewrite_resource_refs_def by (rule rewrite_resource_refs_keys)
  with assms have d: "distinct (map fst (p_settings ?p))" by simp
  have f: "files (fst (ingest_profiles empty_store sl V [?p]))
         = files (save empty_store (create_stored ?p V))"
    by (simp add: ingest_profiles_def ingest_one_empty Let_def files_update_meta)
  have g: "get (fst (ingest_profiles empty_store sl V [?p])) (p_slicer ?p)
             (profile_type_value (p_profile_type ?p)) (p_vendor ?p) (p_name ?p)
           = Some (create_stored ?p V)"
  proof -
    have "get (fst (ingest_profiles empty_store sl V [?p])) (p_slicer ?p)
             (profile_type_value (p_profile_type ?p)) (p_vendor ?p) (p_name ?p)
        = map_of (files (save empty_store (create_stored ?p V)))
            (profile_path (slicer_value (p_slicer ?p))
               (profile_type_value (p_profile_type ?p)) (p_vendor ?p) (p_name ?p))"
      by (simp only: get_def load_def f)
    also have "\<dots> = map_of (files (save empty_store (create_stored ?p V)))
            (profile_path (slicer (create_stored ?p V)) (profile_type (create_stored ?p V))
               (vendor (create_stored ?p V)) (name (create_stored ?p V)))"
      by (simp add: create_stored_def)
    also have "\<dots> = Some (create_stored ?p V)"
      by (rule load_save_same)
    finally show ?thesis .
  qed
  have e: "evaluate (create_stored ?p V) V
             = filter (\<lambda>kv. fst kv \<noteq> ''renamed_from'') (p_settings ?p)"
    using d by (rule evaluate_create_stored)
  from g e show ?thesis by blast
qed

theorem ingest_evaluate_roundtrip_witness:
  "distinct (map fst (p_settings ex_abs))
   \<and> (\<exists>sp. get (fst (ingest_profiles empty_store BAMBUSTUDIO ''01.00.00''
                       [rewrite_resource_refs [] ex_abs]))
               BAMBUSTUDIO ''filament'' ''BBL'' ''Bambu ABS'' = Some sp
          \<and> evaluate sp ''01.00.00''
              = [(''nozzle_temperature'', JInt 270), (''filament_type'', JStr ''ABS'')])"
proof -
  have d: "distinct (map fst (p_settings ex_abs))" by (simp add: ex_abs_def)
  have r: "rewrite_resource_refs [] ex_abs = ex_abs"
    by (simp add: rewrite_resource_refs_def RESOURCE_SETTING_KEYS_def ex_abs_def)
  from ingest_evaluate_roundtrip [OF d, of BAMBUSTUDIO "''01.00.00''" "[]"]
  have "\<exists>sp. get (fst (ingest_profiles empty_store BAMBUSTUDIO ''01.00.00''
                       [rewrite_resource_refs [] ex_abs]))
               BAMBUSTUDIO ''filament'' ''BBL'' ''Bambu ABS'' = Some sp
          \<and> evaluate sp ''01.00.00''
              = [(''nozzle_temperature'', JInt 270), (''filament_type'', JStr ''ABS'')]"
    by (simp add: r) (simp add: ex_abs_def)
  with d show ?thesis by blast
qed

text \<open>
  The claim as stated fails for a profile that carries \<open>renamed_from\<close> among its
  settings: the key is dropped on the way into the store, so the evaluation differs from
  the profile's settings.
\<close>

theorem ingest_evaluate_drops_renamed_from:
  "rewrite_resource_refs [] ex_abs_pro = ex_abs_pro
   \<and> p_settings ex_abs_pro
       = [(''renamed_from'', JStr ''Bambu ABS''), (''nozzle_temperature'', JInt 285),
          (''filament_type'', JStr ''ABS'')]
   \<and> map_option (\<lambda>sp. evaluate sp ''03.00.00'')
       (get (fst (ingest_profiles empty_store BAMBUSTUDIO ''03.00.00'' [ex_abs_pro]))
          BAMBUSTUDIO ''filament'' ''BBL'' ''Bambu ABS Pro'')
       = Some [(''nozzle_temperature'', JInt 285), (''filament_type'', JStr ''ABS'')]"
  by code_simp

section \<open>Renamed profiles\<close>

lemma map_of_map_snd:
  "map_of (map (\<lambda>kv. (fst kv, f (snd kv))) xs) k = map_option f (map_of xs k)"
  by (induction xs) auto

lemma map_of_filter_key:
  "map_of (filter (\<lambda>kv. fst kv \<noteq> r) xs) k = (if k = r then None else map_of xs k)"
  by (induction xs) auto

lemma map_of_create_stored:
  assumes "distinct (map fst (p_settings p))"
  shows "map_of (settings (create_stored p V)) k
           = (if k = ''renamed_from'' then None
              else map_option (\<lambda>v. [(V, v)]) (map_of (p_settings p) k))"
  unfolding settings_create_stored [OF assms]
  by (simp add: map_of_map_snd [of "\<lambda>v. [(V, v)]"] map_of_filter_key)

lemma dict_update_single: "dict_update oh [(V, v)] = dict_set V v oh"
  by (simp add: dict_update_def)

lemma merge_rename_step_settings:
  "map_of (settings (merge_rename_step np kv)) k
     = (if k = fst kv
        then Some (case map_of (settings np) (fst kv) of
                     Some nv \<Rightarrow> dict_update (snd kv) nv | None \<Rightarrow> snd kv)
        else map_of (settings np) k)"
  by (simp add: merge_rename_step_def map_of_dict_set)

lemma merge_rename_step_fields:
  "first_seen (merge_rename_step np kv) = first_seen np"
  "renamed_from (merge_rename_step np kv) = renamed_from np"
  "slicer (merge_rename_step np kv) = slicer np"
  "profile_type (merge_rename_step np kv) = profile_type np"
  "vendor (merge_rename_step np kv) = vendor np"
  "name (merge_rename_step np kv) = name np"
  by (simp_all add: merge_rename_step_def)

lemma merge_rename_fold_fields:
  "first_seen (foldl merge_rename_step np os) = first_seen np
   \<and> renamed_from (foldl merge_rename_step np os) = renamed_from np
   \<and> slicer (foldl merge_rename_step np os) = slicer np
   \<and> profile_type (foldl merge_rename_step np os) = profile_type np
   \<and> vendor (foldl merge_rename_step np os) = vendor np
   \<and> name (foldl merge_rename_step np os) = name np"
  by (induction os arbitrary: np) (simp_all add: merge_rename_step_fields)

lemma merge_rename_fold:
  "distinct (map fst os) \<Longrightarrow>
   map_of (settings (foldl merge_rename_step np os)) k
     = (case map_of os k of
          Some oh \<Rightarrow> Some (case map_of (settings np) k of
                             Some nv \<Rightarrow> dict_update oh nv | None \<Rightarrow> oh)
        | None \<Rightarrow> map_of (settings np) k)"
proof (induction os arbitrary: np)
  case Nil
  show ?case by simp
next
  case (Cons kv os)
  have d: "distinct (map fst os)" and fresh: "fst kv \<notin> fst ` set os"
    using Cons.prems by simp_all
  have none: "map_of os (fst kv) = None" using fresh by (simp add: map_of_eq_None_iff)
  obtain a b where kv: "kv = (a, b)" by (cases kv)
  have IH: "map_of (settings (foldl merge_rename_step (merge_rename_step np (a, b)) os)) k
     = (case map_of os k of
          Some oh \<Rightarrow> Some (case map_of (settings (merge_rename_step np (a, b))) k of
                             Some nv \<Rightarrow> dict_update oh nv | None \<Rightarrow> oh)
        | None \<Rightarrow> map_of (settings (merge_rename_step np (a, b))) k)"
    using d by (rule Cons.IH)
  show ?case
  proof (cases "k = a")
    case True
    have n2: "map_of os k = None" using none True kv by simp
    have st: "map_of (settings (merge_rename_step np (a, b))) k
        = Some (case map_of (settings np) k of Some nv \<Rightarrow> dict_update b nv | None \<Rightarrow> b)"
      using True by (simp add: merge_rename_step_settings split: option.splits)
    have l: "map_of (settings (foldl merge_rename_step (merge_rename_step np (a, b)) os)) k
        = Some (case map_of (settings np) k of Some nv \<Rightarrow> dict_update b nv | None \<Rightarrow> b)"
      unfolding IH n2 st by (simp split: option.splits)
    have m: "map_of ((a, b) # os) k = Some b" using True by simp
    show ?thesis unfolding kv foldl_Cons m l by (simp split: option.splits)
  next
    case False
    have st: "map_of (settings (merge_rename_step np (a, b))) k = map_of (settings np) k"
      using False by (simp add: merge_rename_step_settings)
    have m: "map_of ((a, b) # os) k = map_of os k" using False by simp
    show ?thesis unfolding kv foldl_Cons m IH st by (simp split: option.splits)
  qed
qed

lemma merge_rename_props:
  assumes "distinct (map fst (settings old))"
  shows "map_of (settings (merge_rename new old)) k
         = (case map_of (settings old) k of
              Some oh \<Rightarrow> Some (case map_of (settings new) k of
                                 Some nv \<Rightarrow> dict_update oh nv | None \<Rightarrow> oh)
            | None \<Rightarrow> map_of (settings new) k)
       \<and> first_seen (merge_rename new old) = first_seen old
       \<and> renamed_from (merge_rename new old) = Some (name old)
       \<and> slicer (merge_rename new old) = slicer new
       \<and> profile_type (merge_rename new old) = profile_type new
       \<and> vendor (merge_rename new old) = vendor new
       \<and> name (merge_rename new old) = name new"
proof -
  define np where "np = new\<lparr>first_seen := first_seen old, renamed_from := Some (name old)\<rparr>"
  have r: "merge_rename new old = foldl merge_rename_step np (settings old)"
    by (simp add: merge_rename_def np_def)
  have s: "settings np = settings new" "first_seen np = first_seen old"
    "renamed_from np = Some (name old)" "slicer np = slicer new"
    "profile_type np = profile_type new" "vendor np = vendor new" "name np = name new"
    by (simp_all add: np_def)
  have F: "map_of (settings (merge_rename new old)) k
     = (case map_of (settings old) k of
          Some oh \<Rightarrow> Some (case map_of (settings np) k of
                             Some nv \<Rightarrow> dict_update oh nv | None \<Rightarrow> oh)
        | None \<Rightarrow> map_of (settings np) k)"
    unfolding r using assms by (rule merge_rename_fold)
  have G: "first_seen (merge_rename new old) = first_seen np
   \<and> renamed_from (merge_rename new old) = renamed_from np
   \<and> slicer (merge_rename new old) = slicer np
   \<and> profile_type (merge_rename new old) = profile_type np
   \<and> vendor (merge_rename new old) = vendor np
   \<and> name (merge_rename new old) = name np"
    unfolding r by (rule merge_rename_fold_fields)
  from F G show ?thesis unfolding s by blast
qed

lemma ingest_one_rename:
  assumes "load st (slicer_value sl) (profile_type_value (p_profile_type p)) (p_vendor p) (p_name p) = None"
    and "extract_renamed_from (p_settings p) = Some X" and "X \<noteq> []"
    and "load st (slicer_value sl) (profile_type_value (p_profile_type p)) (p_vendor p) X = Some old"
  shows "ingest_one sl V (st, a, c, s) p
     = (save (delete st (slicer_value sl) (profile_type_value (p_profile_type p)) (p_vendor p) X)
             (merge_rename (create_stored p V) old),
        a @ [p_name p], c,
        s @ [profile_key sl (profile_type_value (p_profile_type p)) (p_vendor p) (p_name p)])"
  using assms by (simp add: ingest_one_def Let_def)

text \<open>
  Claim C3, as the code has it. A new profile \<open>p\<close> names, in \<open>renamed_from\<close>, a profile
  \<open>X\<close> stored under the same slicer, type and vendor. After the ingestion the successor
  is stored; it has the predecessor's \<open>first_seen\<close> and, as \<open>renamed_from\<close>, the
  predecessor's name. For a key of both, the history is the predecessor's history with
  the new value assigned at the ingested version: the predecessor's full history followed
  by the new entry when that version is not yet in the history. A key of the predecessor
  alone keeps the predecessor's history, a key of the new profile alone has the one new
  entry, and the file of \<open>X\<close> is gone.
\<close>

theorem rename_merges_history:
  assumes new: "load st (slicer_value sl) (profile_type_value (p_profile_type p)) (p_vendor p) (p_name p) = None"
    and rf: "extract_renamed_from (p_settings p) = Some X"
    and ne: "X \<noteq> []"
    and old: "load st (slicer_value sl) (profile_type_value (p_profile_type p)) (p_vendor p) X = Some old"
    and dp: "distinct (map fst (p_settings p))"
    and dold: "distinct (map fst (settings old))"
  shows "\<exists>succ.
      load (fst (ingest_profiles st sl V [p])) (slicer_value (p_slicer p))
        (profile_type_value (p_profile_type p)) (p_vendor p) (p_name p) = Some succ
      \<and> first_seen succ = first_seen old
      \<and> renamed_from succ = Some (name old)
      \<and> (\<forall>k oh v. map_of (settings old) k = Some oh \<and> map_of (p_settings p) k = Some v
                   \<and> k \<noteq> ''renamed_from''
             \<longrightarrow> map_of (settings succ) k = Some (dict_set V v oh)
                 \<and> (V \<notin> fst ` set oh \<longrightarrow> map_of (settings succ) k = Some (oh @ [(V, v)])))
      \<and> (\<forall>k oh. map_of (settings old) k = Some oh
                  \<and> (map_of (p_settings p) k = None \<or> k = ''renamed_from'')
             \<longrightarrow> map_of (settings succ) k = Some oh)
      \<and> (\<forall>k v. map_of (settings old) k = None \<and> map_of (p_settings p) k = Some v
                  \<and> k \<noteq> ''renamed_from''
             \<longrightarrow> map_of (settings succ) k = Some [(V, v)])
      \<and> load (fst (ingest_profiles st sl V [p])) (slicer_value sl)
          (profile_type_value (p_profile_type p)) (p_vendor p) X = None
      \<and> added (snd (ingest_profiles st sl V [p])) = [p_name p]"
proof -
  let ?pt = "profile_type_value (p_profile_type p)"
  let ?succ = "merge_rename (create_stored p V) old"
  let ?st1 = "save (delete st (slicer_value sl) ?pt (p_vendor p) X) ?succ"
  note M = merge_rename_props [OF dold, of "create_stored p V"]
  note C = map_of_create_stored [OF dp, of V]
  have step: "ingest_one sl V (st, [], [], []) p
     = (?st1, [p_name p], [], [profile_key sl ?pt (p_vendor p) (p_name p)])"
    using ingest_one_rename [OF new rf ne old, of V "[]" "[]" "[]"] by simp
  have fl: "files (fst (ingest_profiles st sl V [p])) = files ?st1"
    by (simp add: ingest_profiles_def step Let_def files_update_meta)
  have ad: "added (snd (ingest_profiles st sl V [p])) = [p_name p]"
    by (simp add: ingest_profiles_def step Let_def)
  have own: "profile_path (slicer ?succ) (profile_type ?succ) (vendor ?succ) (name ?succ)
           = profile_path (slicer_value (p_slicer p)) ?pt (p_vendor p) (p_name p)"
    using M by (simp add: create_stored_def)
  have ld: "load (fst (ingest_profiles st sl V [p])) (slicer_value (p_slicer p)) ?pt
              (p_vendor p) (p_name p) = Some ?succ"
    unfolding load_def fl own [symmetric] by (rule load_save_same)
  have differ: "profile_path (slicer_value sl) ?pt (p_vendor p) X
              \<noteq> profile_path (slicer_value (p_slicer p)) ?pt (p_vendor p) (p_name p)"
  proof
    assume eq: "profile_path (slicer_value sl) ?pt (p_vendor p) X
              = profile_path (slicer_value (p_slicer p)) ?pt (p_vendor p) (p_name p)"
    then have "profile_path (slicer_value sl) ?pt (p_vendor p) X
              = profile_path (slicer_value sl) ?pt (p_vendor p) (p_name p)"
      by (rule profile_path_name)
    with old have "load st (slicer_value sl) ?pt (p_vendor p) (p_name p) = Some old"
      by (simp add: load_def)
    with new show False by simp
  qed
  have gone: "load (fst (ingest_profiles st sl V [p])) (slicer_value sl) ?pt (p_vendor p) X = None"
    unfolding load_def fl
    using differ by (simp add: save_def delete_def own map_of_dict_set map_of_dict_del)
  have both: "\<forall>k oh v. map_of (settings old) k = Some oh \<and> map_of (p_settings p) k = Some v
                   \<and> k \<noteq> ''renamed_from''
             \<longrightarrow> map_of (settings ?succ) k = Some (dict_set V v oh)
                 \<and> (V \<notin> fst ` set oh \<longrightarrow> map_of (settings ?succ) k = Some (oh @ [(V, v)]))"
    using M C by (auto simp: dict_update_single dict_set_append)
  have only_old: "\<forall>k oh. map_of (settings old) k = Some oh
                  \<and> (map_of (p_settings p) k = None \<or> k = ''renamed_from'')
             \<longrightarrow> map_of (settings ?succ) k = Some oh"
    using M C by auto
  have only_new: "\<forall>k v. map_of (settings old) k = None \<and> map_of (p_settings p) k = Some v
                  \<and> k \<noteq> ''renamed_from''
             \<longrightarrow> map_of (settings ?succ) k = Some [(V, v)]"
    using M C by auto
  have fs: "first_seen ?succ = first_seen old" and rn: "renamed_from ?succ = Some (name old)"
    using M by simp_all
  from ld fs rn both only_old only_new gone ad show ?thesis by blast
qed

theorem rename_merges_history_witness:
  "load ex_store1 ''bambustudio'' ''filament'' ''BBL'' ''Bambu ABS Pro'' = None
   \<and> extract_renamed_from (p_settings ex_abs_pro) = Some ''Bambu ABS''
   \<and> load ex_store1 ''bambustudio'' ''filament'' ''BBL'' ''Bambu ABS'' = Some ex_abs_stored
   \<and> distinct (map fst (p_settings ex_abs_pro))
   \<and> distinct (map fst (settings ex_abs_stored))
   \<and> (\<exists>succ. load (fst (ingest_profiles ex_store1 BAMBUSTUDIO ''03.00.00'' [ex_abs_pro]))
                ''bambustudio'' ''filament'' ''BBL'' ''Bambu ABS Pro'' = Some succ
          \<and> first_seen succ = ''01.00.00''
          \<and> renamed_from succ = Some ''Bambu ABS''
          \<and> map_of (settings succ) ''nozzle_temperature''
              = Some [(''01.00.00'', JInt 270), (''03.00.00'', JInt 285)])
   \<and> load (fst (ingest_profiles ex_store1 BAMBUSTUDIO ''03.00.00'' [ex_abs_pro]))
        ''bambustudio'' ''filament'' ''BBL'' ''Bambu ABS'' = None"
proof -
  have pv: "slicer_value BAMBUSTUDIO = ''bambustudio''"
    "profile_type_value (p_profile_type ex_abs_pro) = ''filament''"
    "p_vendor ex_abs_pro = ''BBL''" "p_name ex_abs_pro = ''Bambu ABS Pro''"
    "slicer_value (p_slicer ex_abs_pro) = ''bambustudio''"
    by (simp_all add: ex_abs_pro_def)
  have h1: "load ex_store1 ''bambustudio'' ''filament'' ''BBL'' ''Bambu ABS Pro'' = None"
    by code_simp
  have h2: "extract_renamed_from (p_settings ex_abs_pro) = Some ''Bambu ABS''"
    by (simp add: extract_renamed_from_def ex_abs_pro_def)
  have h3: "''Bambu ABS'' \<noteq> []" by simp
  have h4: "load ex_store1 ''bambustudio'' ''filament'' ''BBL'' ''Bambu ABS'' = Some ex_abs_stored"
    by code_simp
  have h5: "distinct (map fst (p_settings ex_abs_pro))" by (simp add: ex_abs_pro_def)
  have h6: "distinct (map fst (settings ex_abs_stored))" by (simp add: ex_abs_stored_def)
  note T = rename_merges_history [of ex_store1 BAMBUSTUDIO ex_abs_pro "''Bambu ABS''"
      ex_abs_stored "''03.00.00''", unfolded pv, OF h1 h2 h3 h4 h5 h6]
  from T obtain succ where
    l: "load (fst (ingest_profiles ex_store1 BAMBUSTUDIO ''03.00.00'' [ex_abs_pro]))
                ''bambustudio'' ''filament'' ''BBL'' ''Bambu ABS Pro'' = Some succ"
    and fs: "first_seen succ = first_seen ex_abs_stored"
    and rn: "renamed_from succ = Some (name ex_abs_stored)"
    and both: "\<forall>k oh v. map_of (settings ex_abs_stored) k = Some oh
                   \<and> map_of (p_settings ex_abs_pro) k = Some v \<and> k \<noteq> ''renamed_from''
             \<longrightarrow> map_of (settings succ) k = Some (dict_set ''03.00.00'' v oh)
                 \<and> (''03.00.00'' \<notin> fst ` set oh
                      \<longrightarrow> map_of (settings succ) k = Some (oh @ [(''03.00.00'', v)]))"
    and gone: "load (fst (ingest_profiles ex_store1 BAMBUSTUDIO ''03.00.00'' [ex_abs_pro]))
        ''bambustudio'' ''filament'' ''BBL'' ''Bambu ABS'' = None"
    by blast
  have o: "map_of (settings ex_abs_stored) ''nozzle_temperature'' = Some [(''01.00.00'', JInt 270)]"
    by (simp add: ex_abs_stored_def)
  have n: "map_of (p_settings ex_abs_pro) ''nozzle_temperature'' = Some (JInt 285)"
    by (simp add: ex_abs_pro_def)
  have k: "''nozzle_temperature'' \<noteq> ''renamed_from''" by simp
  have f: "''03.00.00'' \<notin> fst ` set [(''01.00.00'', JInt 270)]" by simp
  from both o n k f
  have hist: "map_of (settings succ) ''nozzle_temperature''
              = Some ([(''01.00.00'', JInt 270)] @ [(''03.00.00'', JInt 285)])"
    by blast
  have fs': "first_seen succ = ''01.00.00''" using fs by (simp add: ex_abs_stored_def)
  have rn': "renamed_from succ = Some ''Bambu ABS''" using rn by (simp add: ex_abs_stored_def)
  from hist have hist': "map_of (settings succ) ''nozzle_temperature''
              = Some [(''01.00.00'', JInt 270), (''03.00.00'', JInt 285)]" by simp
  from l fs' rn' hist' have ex: "\<exists>succ. load (fst (ingest_profiles ex_store1 BAMBUSTUDIO ''03.00.00'' [ex_abs_pro]))
                ''bambustudio'' ''filament'' ''BBL'' ''Bambu ABS Pro'' = Some succ
          \<and> first_seen succ = ''01.00.00''
          \<and> renamed_from succ = Some ''Bambu ABS''
          \<and> map_of (settings succ) ''nozzle_temperature''
              = Some [(''01.00.00'', JInt 270), (''03.00.00'', JInt 285)]" by blast
  from h1 h2 h4 h5 h6 ex gone show ?thesis by blast
qed

text \<open>
  The claim as stated fails when the ingested version is already in the predecessor's
  history of a common key: the new value replaces the predecessor's entry at that
  version, so the successor's history does not begin with the predecessor's. Here the
  successor arrives at the version at which the predecessor was stored.
\<close>

theorem rename_overwrites_same_version:
  "load ex_store1 ''bambustudio'' ''filament'' ''BBL'' ''Bambu ABS'' = Some ex_abs_stored
   \<and> map_of (settings ex_abs_stored) ''nozzle_temperature'' = Some [(''01.00.00'', JInt 270)]
   \<and> extract_renamed_from (p_settings ex_abs_pro) = Some ''Bambu ABS''
   \<and> map_option (\<lambda>succ. map_of (settings succ) ''nozzle_temperature'')
        (load (fst (ingest_profiles ex_store1 BAMBUSTUDIO ''01.00.00'' [ex_abs_pro]))
           ''bambustudio'' ''filament'' ''BBL'' ''Bambu ABS Pro'')
       = Some (Some [(''01.00.00'', JInt 285)])"
  by code_simp

section \<open>Profiles that disappear from a later version\<close>

lemma set_dict_set: "set (dict_set k v d) \<subseteq> insert (k, v) (set d)"
  by (induction d) auto

lemma store_ok_save: "store_ok st \<Longrightarrow> store_ok (save st sp)"
  unfolding store_ok_def save_def using set_dict_set by fastforce

lemma store_ok_delete: "store_ok st \<Longrightarrow> store_ok (delete st a b c d)"
  unfolding store_ok_def delete_def dict_del_def by simp

lemma store_ok_update_meta: "store_ok (update_meta st sl V) = store_ok st"
  by (simp add: store_ok_def files_update_meta)

lemma map_of_save_other:
  "profile_path (slicer sp) (profile_type sp) (vendor sp) (name sp) \<noteq> q \<Longrightarrow>
   map_of (files (save st sp)) q = map_of (files st) q"
  by (simp add: save_def map_of_dict_set)

lemma map_of_delete_other:
  "profile_path a b c d \<noteq> q \<Longrightarrow> map_of (files (delete st a b c d)) q = map_of (files st) q"
  by (simp add: delete_def map_of_dict_del)

lemma store_ok_load:
  "store_ok st \<Longrightarrow> load st a b c d = Some e \<Longrightarrow>
   profile_path (slicer e) (profile_type e) (vendor e) (name e) = profile_path a b c d"
proof -
  assume ok: "store_ok st" and l: "load st a b c d = Some e"
  from l have "(profile_path a b c d, e) \<in> set (files st)"
    unfolding load_def by (rule map_of_SomeD)
  with ok show ?thesis unfolding store_ok_def by force
qed

lemma merge_version_fold_fields:
  "slicer (fst (foldl (\<lambda>acc kv.
              let sp = fst acc; chg = snd acc in
              if fst kv \<in> set META_KEYS then acc
              else if normalize_value (get_latest sp (fst kv)) \<noteq> normalize_value (snd kv)
              then (sp\<lparr>settings :=
                        dict_set (fst kv)
                          (dict_set V (snd kv)
                             (case map_of (settings sp) (fst kv) of None \<Rightarrow> [] | Some h \<Rightarrow> h))
                          (settings sp)\<rparr>,
                    chg @ [fst kv])
              else acc) acc0 xs)) = slicer (fst acc0)
   \<and> profile_type (fst (foldl (\<lambda>acc kv.
              let sp = fst acc; chg = snd acc in
              if fst kv \<in> set META_KEYS then acc
              else if normalize_value (get_latest sp (fst kv)) \<noteq> normalize_value (snd kv)
              then (sp\<lparr>settings :=
                        dict_set (fst kv)
                          (dict_set V (snd kv)
                             (case map_of (settings sp) (fst kv) of None \<Rightarrow> [] | Some h \<Rightarrow> h))
                          (settings sp)\<rparr>,
                    chg @ [fst kv])
              else acc) acc0 xs)) = profile_type (fst acc0)
   \<and> vendor (fst (foldl (\<lambda>acc kv.
              let sp = fst acc; chg = snd acc in
              if fst kv \<in> set META_KEYS then acc
              else if normalize_value (get_latest sp (fst kv)) \<noteq> normalize_value (snd kv)
              then (sp\<lparr>settings :=
                        dict_set (fst kv)
                          (dict_set V (snd kv)
                             (case map_of (settings sp) (fst kv) of None \<Rightarrow> [] | Some h \<Rightarrow> h))
                          (settings sp)\<rparr>,
                    chg @ [fst kv])
              else acc) acc0 xs)) = vendor (fst acc0)
   \<and> name (fst (foldl (\<lambda>acc kv.
              let sp = fst acc; chg = snd acc in
              if fst kv \<in> set META_KEYS then acc
              else if normalize_value (get_latest sp (fst kv)) \<noteq> normalize_value (snd kv)
              then (sp\<lparr>settings :=
                        dict_set (fst kv)
                          (dict_set V (snd kv)
                             (case map_of (settings sp) (fst kv) of None \<Rightarrow> [] | Some h \<Rightarrow> h))
                          (settings sp)\<rparr>,
                    chg @ [fst kv])
              else acc) acc0 xs)) = name (fst acc0)"
  by (induction xs arbitrary: acc0) (simp_all add: Let_def)

lemma merge_version_path:
  "profile_path (slicer (fst (merge_version e p V))) (profile_type (fst (merge_version e p V)))
     (vendor (fst (merge_version e p V))) (name (fst (merge_version e p V)))
   = profile_path (slicer e) (profile_type e) (vendor e) (name e)"
  unfolding merge_version_def
  using merge_version_fold_fields [of V "(e\<lparr>last_seen := V\<rparr>, [])" "p_settings p"]
  by simp

lemma merge_rename_path:
  "profile_path (slicer (merge_rename n old)) (profile_type (merge_rename n old))
     (vendor (merge_rename n old)) (name (merge_rename n old))
   = profile_path (slicer n) (profile_type n) (vendor n) (name n)"
  unfolding merge_rename_def
  using merge_rename_fold_fields [of "n\<lparr>first_seen := first_seen old,
                     renamed_from := Some (name old)\<rparr>" "settings old"]
  by simp

lemma create_stored_path:
  "profile_path (slicer (create_stored p V)) (profile_type (create_stored p V))
     (vendor (create_stored p V)) (name (create_stored p V))
   = profile_path (slicer_value (p_slicer p)) (profile_type_value (p_profile_type p))
       (p_vendor p) (p_name p)"
  by (simp add: create_stored_def)

lemma ingest_one_seen:
  "snd (snd (snd (ingest_one sl V (st, a, c, s) p)))
     = s @ [profile_key sl (profile_type_value (p_profile_type p)) (p_vendor p) (p_name p)]"
  by (simp add: ingest_one_def Let_def split: option.splits)

lemma ingest_one_frame:
  assumes ok: "store_ok st"
    and psl: "p_slicer p = sl"
    and ne: "profile_path (slicer_value sl) (profile_type_value (p_profile_type p))
               (p_vendor p) (p_name p) \<noteq> q"
    and nr: "\<forall>old. extract_renamed_from (p_settings p) = Some old \<longrightarrow>
               profile_path (slicer_value sl) (profile_type_value (p_profile_type p))
                 (p_vendor p) old \<noteq> q"
  shows "map_of (files (fst (ingest_one sl V (st, a, c, s) p))) q = map_of (files st) q
         \<and> store_ok (fst (ingest_one sl V (st, a, c, s) p))"
proof (cases "load st (slicer_value sl) (profile_type_value (p_profile_type p)) (p_vendor p) (p_name p)")
  case None
  let ?pt = "profile_type_value (p_profile_type p)"
  define merged where "merged =
     (case extract_renamed_from (p_settings p) of
        None \<Rightarrow> (create_stored p V, st)
      | Some old_name \<Rightarrow>
          if old_name = [] then (create_stored p V, st)
          else (case load st (slicer_value sl) ?pt (p_vendor p) old_name of
                  None \<Rightarrow> (create_stored p V, st)
                | Some old_profile \<Rightarrow>
                    (merge_rename (create_stored p V) old_profile,
                     delete st (slicer_value sl) ?pt (p_vendor p) old_name)))"
  have res: "fst (ingest_one sl V (st, a, c, s) p) = save (snd merged) (fst merged)"
    by (simp add: ingest_one_def None Let_def merged_def)
  have own: "profile_path (slicer (fst merged)) (profile_type (fst merged))
               (vendor (fst merged)) (name (fst merged))
             = profile_path (slicer_value sl) ?pt (p_vendor p) (p_name p)"
    using psl by (auto simp: merged_def merge_rename_path create_stored_path split: option.splits)
  have st0: "map_of (files (snd merged)) q = map_of (files st) q \<and> store_ok (snd merged)"
    using ok nr by (auto simp: merged_def map_of_delete_other store_ok_delete split: option.splits)
  have "map_of (files (save (snd merged) (fst merged))) q = map_of (files (snd merged)) q"
    using ne own by (intro map_of_save_other) simp
  moreover have "store_ok (save (snd merged) (fst merged))"
    using st0 by (intro store_ok_save) simp
  ultimately show ?thesis using st0 by (simp add: res)
next
  case (Some e)
  let ?pt = "profile_type_value (p_profile_type p)"
  let ?mv = "merge_version e p V"
  have res: "fst (ingest_one sl V (st, a, c, s) p)
           = (if snd ?mv \<noteq> [] \<or> last_seen e \<noteq> V then save st (fst ?mv) else st)"
    by (simp add: ingest_one_def Some Let_def)
  have own: "profile_path (slicer (fst ?mv)) (profile_type (fst ?mv)) (vendor (fst ?mv)) (name (fst ?mv))
           = profile_path (slicer_value sl) ?pt (p_vendor p) (p_name p)"
    using store_ok_load [OF ok Some] by (simp add: merge_version_path)
  have "map_of (files (save st (fst ?mv))) q = map_of (files st) q"
    using ne own by (intro map_of_save_other) simp
  moreover have "store_ok (save st (fst ?mv))" using ok by (rule store_ok_save)
  ultimately show ?thesis using ok by (simp add: res)
qed

lemma ingest_fold_frame:
  assumes same: "\<forall>p\<in>set ps. p_slicer p = sl"
    and absent: "\<forall>p\<in>set ps. profile_path (slicer_value sl) (profile_type_value (p_profile_type p))
               (p_vendor p) (p_name p) \<noteq> q"
    and norename: "\<forall>p\<in>set ps. \<forall>old. extract_renamed_from (p_settings p) = Some old \<longrightarrow>
               profile_path (slicer_value sl) (profile_type_value (p_profile_type p))
                 (p_vendor p) old \<noteq> q"
    and ok: "store_ok (fst state)"
  shows "map_of (files (fst (foldl (ingest_one sl V) state ps))) q = map_of (files (fst state)) q
         \<and> store_ok (fst (foldl (ingest_one sl V) state ps))
         \<and> set (snd (snd (snd (foldl (ingest_one sl V) state ps))))
             = set (snd (snd (snd state)))
               \<union> (\<lambda>p. profile_key sl (profile_type_value (p_profile_type p)) (p_vendor p) (p_name p)) ` set ps"
  using assms
proof (induction ps arbitrary: state)
  case Nil
  then show ?case by simp
next
  case (Cons p ps)
  obtain st a c s where state: "state = (st, a, c, s)" by (cases state) auto
  let ?next = "ingest_one sl V (st, a, c, s) p"
  have ok0: "store_ok st" using Cons.prems(4) state by simp
  have F: "map_of (files (fst ?next)) q = map_of (files st) q \<and> store_ok (fst ?next)"
    using Cons.prems(1,2,3) by (intro ingest_one_frame [OF ok0]) simp_all
  have S: "snd (snd (snd ?next))
     = s @ [profile_key sl (profile_type_value (p_profile_type p)) (p_vendor p) (p_name p)]"
    by (rule ingest_one_seen)
  have IH: "map_of (files (fst (foldl (ingest_one sl V) ?next ps))) q = map_of (files (fst ?next)) q
         \<and> store_ok (fst (foldl (ingest_one sl V) ?next ps))
         \<and> set (snd (snd (snd (foldl (ingest_one sl V) ?next ps))))
             = set (snd (snd (snd ?next)))
               \<union> (\<lambda>p. profile_key sl (profile_type_value (p_profile_type p)) (p_vendor p) (p_name p)) ` set ps"
    using Cons.prems(1,2,3) F by (intro Cons.IH) simp_all
  show ?case using IH F S by (simp add: state)
qed

lemma sep_eq:
  "c \<notin> set a \<Longrightarrow> c \<notin> set b \<Longrightarrow> a @ c # x = b @ c # y \<Longrightarrow> a = b \<and> x = y"
proof (induction a arbitrary: b)
  case Nil
  then show ?case by (cases b) auto
next
  case (Cons d a)
  then show ?case by (cases b) auto
qed

lemma no_slash_profile_type: "CHR ''/'' \<notin> set (profile_type_value t)"
  by (cases t) simp_all

lemma dir_name_slicer_value: "dir_name (slicer_value sl)"
  by (cases sl) (simp_all add: dir_name_def)

lemma profile_key_eq:
  assumes n1: "CHR ''/'' \<notin> set vend" and n2: "CHR ''/'' \<notin> set v'"
    and n3: "CHR ''/'' \<notin> set pt" and n4: "CHR ''/'' \<notin> set pt'"
    and eq: "profile_key sl pt' v' n' = slicer_value sl @ ''/'' @ vend @ ''/'' @ pt @ ''/'' @ stem"
  shows "v' = vend \<and> pt' = pt \<and> n' = stem"
proof -
  from eq have e1: "v' @ CHR ''/'' # (pt' @ CHR ''/'' # n') = vend @ CHR ''/'' # (pt @ CHR ''/'' # stem)"
    by (simp add: profile_key_def)
  from sep_eq [OF n2 n1 e1] have v: "v' = vend" and e2: "pt' @ CHR ''/'' # n' = pt @ CHR ''/'' # stem"
    by simp_all
  from sep_eq [OF n4 n3 e2] have "pt' = pt" and "n' = stem" by simp_all
  with v show ?thesis by simp
qed

lemma profile_path_plain:
  assumes "dir_name a" and "dir_name c" and "dir_name b"
  shows "profile_path a b c nm = (False, [a, c, b, sanitize nm @ ''.json''])"
  using assms
  by (simp add: profile_path_def path_join_file path_join_plain store_root_def dir_name_def)

lemma last_profile_path: "last (snd (profile_path a b c nm)) = sanitize nm @ ''.json''"
  by (simp add: profile_path_def path_join_file)

lemma path_stem_json: "stem \<noteq> [] \<Longrightarrow> path_stem (stem @ ''.json'') = stem"
  by (simp add: path_stem_def suffix_of_def)

lemma keys_of_path_plain:
  assumes "dir_name vend" and "dir_name pt" and "\<not> prefix ''_'' vend" and "stem \<noteq> []"
  shows "keys_of_path (slicer_value sl) (False, [slicer_value sl, vend, pt, stem @ ''.json''])
       = [slicer_value sl @ ''/'' @ vend @ ''/'' @ pt @ ''/'' @ stem]"
proof -
  have a: "stem @ ''.json'' \<noteq> ''..''"
  proof
    assume "stem @ ''.json'' = ''..''"
    then have "length (stem @ ''.json'') = length ''..''" by (rule arg_cong)
    then show False by simp
  qed
  have b: "suffix ''.json'' (stem @ ''.json'')" by (rule suffix_appendI) simp
  have c: "slicer_value sl \<noteq> ''..''" using dir_name_slicer_value [of sl] by (simp add: dir_name_def)
  from assms a b c show ?thesis
    by (auto simp: keys_of_path_def path_stem_json dir_name_def)
qed

lemma keys_of_path_no_underscore:
  assumes "k \<in> set (keys_of_path s p)"
  shows "\<not> prefix (s @ ''/_'') k"
proof -
  from assms obtain vend r where k: "k = s @ ''/'' @ vend @ ''/'' @ r" and v: "\<not> prefix ''_'' vend"
    by (auto simp: keys_of_path_def split: prod.splits bool.splits list.splits if_splits)
  show ?thesis
  proof
    assume "prefix (s @ ''/_'') k"
    then have "prefix ''_'' (vend @ ''/'' @ r)" by (simp add: k)
    with v show False by (cases vend) simp_all
  qed
qed

lemma underscore_vendor_never_listed:
  "prefix (slicer_value sl @ ''/_'') k \<Longrightarrow> k \<notin> set (list_profile_keys st sl)"
  using keys_of_path_no_underscore by (fastforce simp: list_profile_keys_def)

text \<open>
  Claim C9, as the code has it. The store satisfies its invariant and holds the file
  \<open>{slicer}/{vendor}/{type}/{stem}.json\<close> of a profile of the ingested slicer, where vendor
  and type are plain directory names (not empty, without a slash, not \<open>.\<close> or \<open>..\<close>),
  the vendor does not start with an underscore, and the stem is a non-empty sanitized name.
  The profiles of the new version are profiles of that slicer with vendors free of
  slashes, none of them is stored at that file, and none of them names it in
  \<open>renamed_from\<close>. Then after the ingestion the file is still there with the same content,
  so with its \<open>last_seen\<close>; the profile is retrieved by its coordinates; its key, built
  from the path and the stem of the file, is in the report's \<open>removed\<close>; and the store
  still satisfies its invariant. No key whose vendor part starts with an underscore is
  in \<open>removed\<close>.
\<close>

theorem absent_profile_reported_removed:
  assumes ok: "store_ok st"
    and here: "map_of (files st) (False, [slicer_value sl, vend, pt, stem @ ''.json'']) = Some sp"
    and stem1: "stem \<noteq> []" and stem2: "sanitize stem = stem"
    and v0: "dir_name vend" and v1: "\<not> prefix ''_'' vend"
    and pt: "dir_name pt"
    and same: "\<forall>p\<in>set profiles. p_slicer p = sl"
    and vs: "\<forall>p\<in>set profiles. CHR ''/'' \<notin> set (p_vendor p)"
    and absent: "\<forall>p\<in>set profiles.
        profile_path (slicer_value sl) (profile_type_value (p_profile_type p))
          (p_vendor p) (p_name p) \<noteq> (False, [slicer_value sl, vend, pt, stem @ ''.json''])"
    and norename: "\<forall>p\<in>set profiles. \<forall>old. extract_renamed_from (p_settings p) = Some old \<longrightarrow>
        profile_path (slicer_value sl) (profile_type_value (p_profile_type p))
          (p_vendor p) old \<noteq> (False, [slicer_value sl, vend, pt, stem @ ''.json''])"
  shows "map_of (files (fst (ingest_profiles st sl V profiles)))
           (False, [slicer_value sl, vend, pt, stem @ ''.json'']) = Some sp
       \<and> get (fst (ingest_profiles st sl V profiles)) sl pt vend (name sp) = Some sp
       \<and> slicer_value sl @ ''/'' @ vend @ ''/'' @ pt @ ''/'' @ stem
           \<in> set (removed (snd (ingest_profiles st sl V profiles)))
       \<and> store_ok (fst (ingest_profiles st sl V profiles))
       \<and> (\<forall>k. prefix (slicer_value sl @ ''/_'') k
              \<longrightarrow> k \<notin> set (removed (snd (ingest_profiles st sl V profiles))))"
proof -
  let ?q = "(False, [slicer_value sl, vend, pt, stem @ ''.json''])"
  let ?k = "slicer_value sl @ ''/'' @ vend @ ''/'' @ pt @ ''/'' @ stem"
  let ?key = "\<lambda>p. profile_key sl (profile_type_value (p_profile_type p)) (p_vendor p) (p_name p)"
  obtain st1 add chg seen where
    fr: "foldl (ingest_one sl V) (st, [], [], []) profiles = (st1, add, chg, seen)"
    by (cases "foldl (ingest_one sl V) (st, [], [], []) profiles") auto
  have ok0: "store_ok (fst (st, [] :: string list, [] :: (string list) pydict, [] :: string list))"
    using ok by simp
  note FR = ingest_fold_frame [OF same absent norename ok0, of V, unfolded fr]
  from FR here have m1: "map_of (files st1) ?q = Some sp" by simp
  from FR have ok1: "store_ok st1" by simp
  from FR have sn: "set seen = ?key ` set profiles" by simp
  have r1: "fst (ingest_profiles st sl V profiles) = update_meta st1 sl V"
    by (simp add: ingest_profiles_def fr Let_def)
  have r2: "removed (snd (ingest_profiles st sl V profiles))
          = filter (\<lambda>k. k \<notin> set seen) (list_profile_keys st1 sl)"
    by (simp add: ingest_profiles_def fr Let_def)
  have plain: "\<And>nm. profile_path (slicer_value sl) pt vend nm
                 = (False, [slicer_value sl, vend, pt, sanitize nm @ ''.json''])"
    using dir_name_slicer_value v0 pt by (rule profile_path_plain)
  have c1: "map_of (files (fst (ingest_profiles st sl V profiles))) ?q = Some sp"
    using m1 by (simp add: r1 files_update_meta)
  have c4: "store_ok (fst (ingest_profiles st sl V profiles))"
    using ok1 by (simp add: r1 store_ok_update_meta)
  have own: "profile_path (slicer sp) (profile_type sp) (vendor sp) (name sp) = ?q"
  proof -
    from here have "(?q, sp) \<in> set (files st)" by (rule map_of_SomeD)
    with ok show ?thesis unfolding store_ok_def by force
  qed
  then have "last (snd (profile_path (slicer sp) (profile_type sp) (vendor sp) (name sp)))
             = last (snd ?q)"
    by (rule arg_cong)
  then have "sanitize (name sp) @ ''.json'' = stem @ ''.json''"
    by (simp add: last_profile_path)
  then have "profile_path (slicer_value sl) pt vend (name sp) = ?q"
    by (simp add: plain)
  then have c2: "get (fst (ingest_profiles st sl V profiles)) sl pt vend (name sp) = Some sp"
    using c1 by (simp add: get_def load_def)
  have listed: "?k \<in> set (list_profile_keys st1 sl)"
  proof -
    from m1 have in1: "(?q, sp) \<in> set (files st1)" by (rule map_of_SomeD)
    have kin: "?k \<in> set (keys_of_path (slicer_value sl) (fst (?q, sp)))"
      using keys_of_path_plain [OF v0 pt v1 stem1, of sl] by simp
    from in1 kin have "\<exists>e\<in>set (files st1). ?k \<in> set (keys_of_path (slicer_value sl) (fst e))"
      by (rule bexI [rotated])
    then show ?thesis unfolding list_profile_keys_def by simp
  qed
  have unseen: "?k \<notin> set seen"
  proof
    assume "?k \<in> set seen"
    then obtain p where pin: "p \<in> set profiles" and ke: "?key p = ?k"
      unfolding sn by force
    have n1: "CHR ''/'' \<notin> set vend" using v0 by (simp add: dir_name_def)
    have n2: "CHR ''/'' \<notin> set (p_vendor p)" using vs pin by simp
    have n3: "CHR ''/'' \<notin> set pt" using pt by (simp add: dir_name_def)
    from profile_key_eq [OF n1 n2 n3 no_slash_profile_type ke]
    have "p_vendor p = vend" and "profile_type_value (p_profile_type p) = pt" and "p_name p = stem"
      by simp_all
    then have "profile_path (slicer_value sl) (profile_type_value (p_profile_type p))
          (p_vendor p) (p_name p) = ?q"
      using stem2 by (simp add: plain)
    with absent pin show False by blast
  qed
  have c3: "?k \<in> set (removed (snd (ingest_profiles st sl V profiles)))"
    using listed unseen by (simp add: r2)
  have c5: "\<forall>k. prefix (slicer_value sl @ ''/_'') k
              \<longrightarrow> k \<notin> set (removed (snd (ingest_profiles st sl V profiles)))"
    using underscore_vendor_never_listed [of sl _ st1] by (simp add: r2)
  from c1 c2 c3 c4 c5 show ?thesis by blast
qed

theorem absent_profile_reported_removed_witness:
  "store_ok ex_store1
   \<and> map_of (files ex_store1) (False, [''bambustudio'', ''BBL'', ''filament'', ''Bambu ABS.json''])
        = Some ex_abs_stored
   \<and> sanitize ''Bambu ABS'' = ''Bambu ABS''
   \<and> dir_name ''BBL'' \<and> \<not> prefix ''_'' ''BBL'' \<and> dir_name ''filament''
   \<and> p_slicer ex_pla = BAMBUSTUDIO
   \<and> CHR ''/'' \<notin> set (p_vendor ex_pla)
   \<and> profile_path ''bambustudio'' ''filament'' ''BBL'' ''Bambu PLA''
        \<noteq> (False, [''bambustudio'', ''BBL'', ''filament'', ''Bambu ABS.json''])
   \<and> extract_renamed_from (p_settings ex_pla) = None
   \<and> map_of (files (fst (ingest_profiles ex_store1 BAMBUSTUDIO ''02.00.00'' [ex_pla])))
        (False, [''bambustudio'', ''BBL'', ''filament'', ''Bambu ABS.json'']) = Some ex_abs_stored
   \<and> get (fst (ingest_profiles ex_store1 BAMBUSTUDIO ''02.00.00'' [ex_pla]))
        BAMBUSTUDIO ''filament'' ''BBL'' ''Bambu ABS'' = Some ex_abs_stored
   \<and> last_seen ex_abs_stored = ''01.00.00''
   \<and> ''bambustudio/BBL/filament/Bambu ABS''
        \<in> set (removed (snd (ingest_profiles ex_store1 BAMBUSTUDIO ''02.00.00'' [ex_pla])))
   \<and> ''bambustudio/_custom/filament/Bambu ABS''
        \<notin> set (removed (snd (ingest_profiles ex_store1 BAMBUSTUDIO ''02.00.00'' [ex_pla])))"
proof -
  have fl: "files ex_store1
          = [((False, [''bambustudio'', ''BBL'', ''filament'', ''Bambu ABS.json'']), ex_abs_stored)]"
    by code_simp
  have sa: "sanitize ''Bambu ABS'' = ''Bambu ABS''" by code_simp
  have pp: "profile_path ''bambustudio'' ''filament'' ''BBL'' ''Bambu ABS''
          = (False, [''bambustudio'', ''BBL'', ''filament'', ''Bambu ABS.json''])"
    by code_simp
  have ok: "store_ok ex_store1"
    by (simp add: store_ok_def fl pp ex_abs_stored_def)
  have sv: "slicer_value BAMBUSTUDIO = ''bambustudio''" by simp
  have here: "map_of (files ex_store1)
                (False, [slicer_value BAMBUSTUDIO, ''BBL'', ''filament'', ''Bambu ABS'' @ ''.json''])
            = Some ex_abs_stored"
    by (simp add: fl)
  have s1: "''Bambu ABS'' \<noteq> []" by simp
  have v0: "dir_name ''BBL''" by (simp add: dir_name_def)
  have v1: "\<not> prefix ''_'' ''BBL''" by simp
  have pt: "dir_name ''filament''" by (simp add: dir_name_def)
  have ps: "p_slicer ex_pla = BAMBUSTUDIO" by (simp add: ex_pla_def)
  have same: "\<forall>p\<in>set [ex_pla]. p_slicer p = BAMBUSTUDIO" using ps by simp
  have vp: "CHR ''/'' \<notin> set (p_vendor ex_pla)" by (simp add: ex_pla_def)
  have vs: "\<forall>p\<in>set [ex_pla]. CHR ''/'' \<notin> set (p_vendor p)" using vp by simp
  have ne: "profile_path ''bambustudio'' ''filament'' ''BBL'' ''Bambu PLA''
        \<noteq> (False, [''bambustudio'', ''BBL'', ''filament'', ''Bambu ABS.json''])"
    by code_simp
  have absent: "\<forall>p\<in>set [ex_pla].
        profile_path (slicer_value BAMBUSTUDIO) (profile_type_value (p_profile_type p))
          (p_vendor p) (p_name p)
        \<noteq> (False, [slicer_value BAMBUSTUDIO, ''BBL'', ''filament'', ''Bambu ABS'' @ ''.json''])"
    using ne by (simp add: ex_pla_def)
  have er: "extract_renamed_from (p_settings ex_pla) = None"
    by (simp add: extract_renamed_from_def ex_pla_def)
  have norename: "\<forall>p\<in>set [ex_pla]. \<forall>old. extract_renamed_from (p_settings p) = Some old \<longrightarrow>
        profile_path (slicer_value BAMBUSTUDIO) (profile_type_value (p_profile_type p))
          (p_vendor p) old
        \<noteq> (False, [slicer_value BAMBUSTUDIO, ''BBL'', ''filament'', ''Bambu ABS'' @ ''.json''])"
    using er by simp
  note T = absent_profile_reported_removed [OF ok here s1 sa v0 v1 pt same vs absent norename,
      of "''02.00.00''"]
  have nm: "name ex_abs_stored = ''Bambu ABS''" by (simp add: ex_abs_stored_def)
  have ls: "last_seen ex_abs_stored = ''01.00.00''" by (simp add: ex_abs_stored_def)
  from T have c1: "map_of (files (fst (ingest_profiles ex_store1 BAMBUSTUDIO ''02.00.00'' [ex_pla])))
        (False, [''bambustudio'', ''BBL'', ''filament'', ''Bambu ABS.json'']) = Some ex_abs_stored"
    by simp
  from T have c2: "get (fst (ingest_profiles ex_store1 BAMBUSTUDIO ''02.00.00'' [ex_pla]))
        BAMBUSTUDIO ''filament'' ''BBL'' ''Bambu ABS'' = Some ex_abs_stored"
    by (simp only: nm)
  from T have c3: "''bambustudio/BBL/filament/Bambu ABS''
        \<in> set (removed (snd (ingest_profiles ex_store1 BAMBUSTUDIO ''02.00.00'' [ex_pla])))"
    by simp
  from T have c5: "\<forall>k. prefix (slicer_value BAMBUSTUDIO @ ''/_'') k
              \<longrightarrow> k \<notin> set (removed (snd (ingest_profiles ex_store1 BAMBUSTUDIO ''02.00.00'' [ex_pla])))"
    by (elim conjE)
  have "prefix (slicer_value BAMBUSTUDIO @ ''/_'') ''bambustudio/_custom/filament/Bambu ABS''"
    by simp
  with c5 have c6: "''bambustudio/_custom/filament/Bambu ABS''
        \<notin> set (removed (snd (ingest_profiles ex_store1 BAMBUSTUDIO ''02.00.00'' [ex_pla])))"
    by blast
  have here': "map_of (files ex_store1) (False, [''bambustudio'', ''BBL'', ''filament'', ''Bambu ABS.json''])
            = Some ex_abs_stored" by (simp add: fl)
  from ok here' sa v0 v1 pt ps vp ne er c1 c2 ls c3 c6 show ?thesis by blast
qed

text \<open>
  The claim as stated fails for a profile whose vendor starts with an underscore, and
  for a profile whose vendor is the empty string. \<open>_list_profile_keys\<close> skips the
  directories that start with an underscore; and with an empty vendor the file is written
  one directory higher, \<open>cura/machine_model/Mini.json\<close>, where the walk does not look for
  profiles. Each profile is stored and kept, and a later version without it does not
  report it as removed.
\<close>

theorem underscore_vendor_not_reported:
  "map fst (files ex_store_custom)
     = [(False, [''orcaslicer'', ''_custom'', ''machine'', ''My Printer.json''])]
   \<and> removed (snd (ingest_profiles ex_store_custom ORCASLICER ''2.0'' [])) = []
   \<and> map fst (files (fst (ingest_profiles ex_store_custom ORCASLICER ''2.0'' [])))
       = [(False, [''orcaslicer'', ''_custom'', ''machine'', ''My Printer.json''])]
   \<and> map fst (files ex_store_mini) = [(False, [''cura'', ''machine_model'', ''Mini.json''])]
   \<and> removed (snd (ingest_profiles ex_store_mini CURA ''5.1'' [])) = []
   \<and> map fst (files (fst (ingest_profiles ex_store_mini CURA ''5.1'' [])))
       = [(False, [''cura'', ''machine_model'', ''Mini.json''])]"
  by code_simp

section \<open>Compatibility conditions\<close>

lemma strip_chars_Nil: "strip_chars P s = [] \<longleftrightarrow> (\<forall>x\<in>set s. P x)"
proof
  assume a: "strip_chars P s = []"
  then have b: "\<forall>x\<in>set (dropWhile P s). P x"
    by (simp add: strip_chars_def dropWhile_eq_Nil_conv)
  have "dropWhile P s = []"
  proof (rule ccontr)
    assume n: "dropWhile P s \<noteq> []"
    then have "\<not> P (hd (dropWhile P s))" by (rule hd_dropWhile)
    moreover from n have "hd (dropWhile P s) \<in> set (dropWhile P s)" by simp
    ultimately show False using b by blast
  qed
  then show "\<forall>x\<in>set s. P x" by (simp add: dropWhile_eq_Nil_conv)
next
  assume "\<forall>x\<in>set s. P x"
  then have "dropWhile P s = []" by (simp add: dropWhile_eq_Nil_conv)
  then show "strip_chars P s = []" by (simp add: strip_chars_def del: dropWhile_eq_Nil_conv)
qed

text \<open>
  Claim C10. Whatever the printer data, the defaults and the slicer are,
  \<open>evaluate_printer_condition\<close> returns \<open>False\<close>, and raises nothing, for a condition
  that is empty or consists of whitespace only. The result is the same for every
  configuration and for every behaviour of the library functions: they are not consulted.
\<close>

theorem blank_condition_is_false:
  "list_all is_space condition \<Longrightarrow>
   evaluate_printer_condition B condition printer_data slicer_name defaults = Inr (Some False)"
  by (simp add: evaluate_printer_condition_def strip_def strip_chars_Nil list_all_iff)

theorem blank_condition_is_false_witness:
  "list_all is_space [CHR 0x20, CHR 0x09, CHR 0x20]
   \<and> evaluate_printer_condition ex_builtins [CHR 0x20, CHR 0x09, CHR 0x20]
        [(''nozzle_diameter'', JStr ''0.4'')] ''prusaslicer'' (Some [(''printer_model'', JStr ''MK4'')])
      = Inr (Some False)"
  using blank_condition_is_false [of "[CHR 0x20, CHR 0x09, CHR 0x20]" ex_builtins
      "[(''nozzle_diameter'', JStr ''0.4'')]" "''prusaslicer''" "Some [(''printer_model'', JStr ''MK4'')]"]
  by (simp add: is_space_def)

















end
